theory Spec2Isabelle
  imports Complex_Main "HOL-Library.Sublist"
begin

section \<open>create-discord-bot: the scaffolder of \<^verbatim>\<open>src/index.js\<close>\<close>

text \<open>
  The program is one script: it prints a banner, asks for an application name, decides
  between updating an existing directory and creating a new one, builds a list of steps
  and runs them. This theory embeds the script function by function. What the script
  gets from Node and its libraries (the file system, \<^verbatim>\<open>prompts\<close>,
  \<^verbatim>\<open>validate-npm-package-name\<close>, \<^verbatim>\<open>execSync\<close>, \<^verbatim>\<open>JSON\<close>)
  is modelled beside it, each model stating the contract it follows.
\<close>

subsection \<open>Characters the messages need\<close>

abbreviation NL :: char where "NL \<equiv> CHR 0x0A"
abbreviation TAB :: char where "TAB \<equiv> CHR 0x09"
abbreviation DQ :: char where "DQ \<equiv> CHR 0x22"
abbreviation SQ :: char where "SQ \<equiv> CHR 0x27"
abbreviation BSL :: char where "BSL \<equiv> CHR 0x5C"

text \<open>\<^verbatim>\<open>Array.prototype.join\<close> on an array of strings.\<close>

fun join :: "string \<Rightarrow> string list \<Rightarrow> string" where
  "join sep [] = []"
| "join sep [x] = x"
| "join sep (x # y # ys) = x @ sep @ join sep (y # ys)"

subsection \<open>JavaScript values read from JSON\<close>

text \<open>
  A JSON number denotes a double. The program only asks a number whether it is zero
  (truthiness) and for its text, so the model keeps the numeric value: a finite double
  is the real it stands for (\<open>-0\<close> and \<open>0\<close> are both the falsy zero), and a
  literal that overflows parses to an infinity.
\<close>

datatype number = Double real | PosInfinity | NegInfinity

datatype json =
    JNull
  | JBool bool
  | JNumber number
  | JString string
  | JArray "json list"
  | JObject "(string \<times> json) list"

text \<open>
  An object is the list of its own properties in property order, keys distinct.
  \<open>getProp\<close> is the property read \<^verbatim>\<open>o.k\<close> on an object: \<open>None\<close> is
  \<^verbatim>\<open>undefined\<close>.
\<close>

definition getProp :: "(string \<times> json) list \<Rightarrow> string \<Rightarrow> json option" where
  "getProp kvs k = map_of kvs k"

text \<open>
  \<open>setProp\<close> is the assignment of one own property, as the object spread
  \<^verbatim>\<open>{ ...o, k }\<close> does it after copying \<open>o\<close>: a key that is there keeps its
  place and takes the new value, a new key goes last.
\<close>

fun setProp :: "string \<Rightarrow> json \<Rightarrow> (string \<times> json) list \<Rightarrow> (string \<times> json) list" where
  "setProp k v [] = [(k, v)]"
| "setProp k v ((k', v') # kvs) =
     (if k' = k then (k, v) # kvs else (k', v') # setProp k v kvs)"

text \<open>JavaScript truthiness of a value that came out of \<^verbatim>\<open>JSON.parse\<close>.\<close>

fun truthy :: "json \<Rightarrow> bool" where
  "truthy JNull = False"
| "truthy (JBool b) = b"
| "truthy (JNumber n) = (n \<noteq> Double 0)"
| "truthy (JString s) = (s \<noteq> [])"
| "truthy (JArray xs) = True"
| "truthy (JObject kvs) = True"

text \<open>
  \<open>toString\<close> is the conversion a template literal applies to an interpolated
  value; \<open>None\<close> is the \<^verbatim>\<open>TypeError\<close> it throws. The text of a number is the
  runtime's (\<open>nts\<close>). An array is its elements joined by commas, \<^verbatim>\<open>null\<close>
  elements empty, and throws when an element does. An object is converted by its
  \<^verbatim>\<open>toString\<close> method: the inherited one gives \<^verbatim>\<open>[object Object]\<close>; an
  own member of that name, which out of \<^verbatim>\<open>JSON.parse\<close> is never a function,
  hides it, and then neither \<^verbatim>\<open>toString\<close> nor \<^verbatim>\<open>valueOf\<close> yields a
  primitive and the conversion throws.
\<close>

fun toString :: "(number \<Rightarrow> string) \<Rightarrow> json \<Rightarrow> string option" where
  "toString nts JNull = Some ''null''"
| "toString nts (JBool b) = Some (if b then ''true'' else ''false'')"
| "toString nts (JNumber n) = Some (nts n)"
| "toString nts (JString s) = Some s"
| "toString nts (JArray xs) =
     map_option (join '','')
       (those (map (\<lambda>x. if x = JNull then Some [] else toString nts x) xs))"
| "toString nts (JObject kvs) =
     (if getProp kvs ''toString'' = None then Some ''[object Object]'' else None)"

subsection \<open>\<^verbatim>\<open>JSON.stringify(value, null, 2)\<close>\<close>

text \<open>
  Strings are byte strings (UTF-8). \<open>quote\<close> escapes the double quote, the backslash
  and the control characters below \<open>0x20\<close>, and passes every other byte on.
\<close>

definition hexDigit :: "nat \<Rightarrow> char" where
  "hexDigit n = (''0123456789abcdef'' ! (n mod 16))"

definition quoteChar :: "char \<Rightarrow> string" where
  "quoteChar c =
     (if c = DQ then [BSL, DQ]
      else if c = BSL then [BSL, BSL]
      else if c = CHR 0x08 then [BSL, CHR ''b'']
      else if c = TAB then [BSL, CHR ''t'']
      else if c = NL then [BSL, CHR ''n'']
      else if c = CHR 0x0C then [BSL, CHR ''f'']
      else if c = CHR 0x0D then [BSL, CHR ''r'']
      else if of_char c < (32 :: nat)
        then [BSL, CHR ''u'', CHR ''0'', CHR ''0'',
              hexDigit (of_char c div 16), hexDigit (of_char c)]
      else [c])"

definition quote :: "string \<Rightarrow> string" where
  "quote s = DQ # concat (map quoteChar s) @ [DQ]"

definition indent :: "nat \<Rightarrow> string" where
  "indent lvl = replicate (2 * lvl) CHR '' ''"

text \<open>
  \<open>wrap\<close> lays the members of an array or an object out: one member a line, each
  indented by two spaces a level, the closing bracket back at the level of the opening
  one.
\<close>

definition wrap :: "nat \<Rightarrow> string \<Rightarrow> string \<Rightarrow> string list \<Rightarrow> string" where
  "wrap lvl opening closing members =
     opening @ [NL] @ indent (Suc lvl)
       @ join ('','' @ [NL] @ indent (Suc lvl)) members
       @ [NL] @ indent lvl @ closing"

fun stringify :: "(number \<Rightarrow> string) \<Rightarrow> nat \<Rightarrow> json \<Rightarrow> string" where
  "stringify nts lvl JNull = ''null''"
| "stringify nts lvl (JBool b) = (if b then ''true'' else ''false'')"
| "stringify nts lvl (JNumber n) =
     (case n of Double x \<Rightarrow> nts n | PosInfinity \<Rightarrow> ''null'' | NegInfinity \<Rightarrow> ''null'')"
| "stringify nts lvl (JString s) = quote s"
| "stringify nts lvl (JArray xs) =
     (if xs = [] then ''[]''
      else wrap lvl ''['' '']'' (map (stringify nts (Suc lvl)) xs))"
| "stringify nts lvl (JObject kvs) =
     (if kvs = [] then ''{}''
      else wrap lvl ''{'' ''}''
             (map (\<lambda>kv. quote (fst kv) @ '': '' @ stringify nts (Suc lvl) (snd kv)) kvs))"

definition JSON_stringify2 :: "(number \<Rightarrow> string) \<Rightarrow> json \<Rightarrow> string" where
  "JSON_stringify2 nts v = stringify nts 0 v"

subsection \<open>Thrown values\<close>

type_synonym path = "string list"

datatype js_error =
    Thrown string
  | Errno string path
  | FsExtraError string
  | ExecError string nat
  | ENOBUFS
  | TypeError
  | SyntaxError

text \<open>
  \<open>Thrown s\<close> is \<^verbatim>\<open>throw s\<close> of a string, \<open>Errno code p\<close> a system error of
  Node's \<^verbatim>\<open>fs\<close> at path \<open>p\<close>, \<open>FsExtraError m\<close> an \<^verbatim>\<open>Error\<close> that
  \<^verbatim>\<open>fs-extra\<close> raises itself, \<open>ExecError cmd status\<close> the error of
  \<^verbatim>\<open>execSync\<close> when the command exits with a non-zero status, \<open>ENOBUFS\<close> its
  error when the command prints more than the buffer holds.
\<close>

subsection \<open>The file system\<close>

text \<open>
  A path is the list of its components below the root. The file system is the list of
  its entries, newest binding first; the root is a directory that is always there. The
  script's own operations never delete; the commands it runs may do anything.
\<close>

datatype node = File string | Dir

type_synonym filesystem = "(path \<times> node) list"

definition lookup :: "filesystem \<Rightarrow> path \<Rightarrow> node option" where
  "lookup fs p = (if p = [] then Some Dir else map_of fs p)"

definition existsSync :: "filesystem \<Rightarrow> path \<Rightarrow> bool" where
  "existsSync fs p = (lookup fs p \<noteq> None)"

text \<open>
  Every operation returns the error it throws, if any, beside the file system it leaves:
  what was written before a throw stays written. \<open>deny\<close> tells the paths the process
  may not write (\<^verbatim>\<open>EACCES\<close>).
\<close>

type_synonym 'a effect = "'a \<Rightarrow> js_error option \<times> 'a"

definition mkdirSync :: "(path \<Rightarrow> bool) \<Rightarrow> path \<Rightarrow> filesystem effect" where
  "mkdirSync deny p fs =
     (if lookup fs p \<noteq> None then (Some (Errno ''EEXIST'' p), fs)
      else case lookup fs (butlast p) of
             None \<Rightarrow> (Some (Errno ''ENOENT'' p), fs)
           | Some (File c) \<Rightarrow> (Some (Errno ''ENOTDIR'' p), fs)
           | Some Dir \<Rightarrow>
               if deny p then (Some (Errno ''EACCES'' p), fs)
               else (None, (p, Dir) # fs))"

definition writeFileSync :: "(path \<Rightarrow> bool) \<Rightarrow> path \<Rightarrow> string \<Rightarrow> filesystem effect" where
  "writeFileSync deny p content fs =
     (case lookup fs p of
        Some Dir \<Rightarrow> (Some (Errno ''EISDIR'' p), fs)
      | _ \<Rightarrow>
         (case lookup fs (butlast p) of
            None \<Rightarrow> (Some (Errno ''ENOENT'' p), fs)
          | Some (File c) \<Rightarrow> (Some (Errno ''ENOTDIR'' p), fs)
          | Some Dir \<Rightarrow>
              if deny p then (Some (Errno ''EACCES'' p), fs)
              else (None, (p, File content) # fs)))"

text \<open>
  \<^verbatim>\<open>fs-extra\<close>'s \<^verbatim>\<open>copySync(src, dest)\<close> with its default options
  (overwrite). \<open>mkdirs\<close> makes the directories of a list of paths that are missing, as
  \<^verbatim>\<open>mkdirsSync\<close> does for the ancestors of the destination.
\<close>

fun mkdirs :: "(path \<Rightarrow> bool) \<Rightarrow> path list \<Rightarrow> filesystem effect" where
  "mkdirs deny [] fs = (None, fs)"
| "mkdirs deny (q # qs) fs =
     (case lookup fs q of
        Some Dir \<Rightarrow> mkdirs deny qs fs
      | Some (File c) \<Rightarrow> (Some (Errno ''ENOTDIR'' q), fs)
      | None \<Rightarrow>
          if deny q then (Some (Errno ''EACCES'' q), fs)
          else mkdirs deny qs ((q, Dir) # fs))"

text \<open>
  One item of the tree: a directory is made where the destination has none and may not
  replace a file; a file replaces a file and may not replace a directory.
\<close>

definition copyItem :: "(path \<Rightarrow> bool) \<Rightarrow> path \<Rightarrow> path \<Rightarrow> filesystem effect" where
  "copyItem deny s d fs =
     (case lookup fs s of
        None \<Rightarrow> (Some (Errno ''ENOENT'' s), fs)
      | Some Dir \<Rightarrow>
          (case lookup fs d of
             Some (File c) \<Rightarrow>
               (Some (FsExtraError ''Cannot overwrite non-directory with directory''), fs)
           | Some Dir \<Rightarrow> (None, fs)
           | None \<Rightarrow>
               if deny d then (Some (Errno ''EACCES'' d), fs)
               else (None, (d, Dir) # fs))
      | Some (File c) \<Rightarrow>
          (case lookup fs d of
             Some Dir \<Rightarrow>
               (Some (FsExtraError ''Cannot overwrite directory with non-directory''), fs)
           | _ \<Rightarrow>
               if deny d then (Some (Errno ''EACCES'' d), fs)
               else (None, (d, File c) # fs)))"

fun copyItems :: "(path \<Rightarrow> bool) \<Rightarrow> path \<Rightarrow> path \<Rightarrow> path list \<Rightarrow> filesystem effect" where
  "copyItems deny src dst [] fs = (None, fs)"
| "copyItems deny src dst (r # rs) fs =
     (case copyItem deny (src @ r) (dst @ r) fs of
        (Some e, fs') \<Rightarrow> (Some e, fs')
      | (None, fs') \<Rightarrow> copyItems deny src dst rs fs')"

text \<open>
  The items of a copy, as paths relative to the source: the source itself first, then,
  for a directory, every entry below it. \<open>copySync\<close> first checks the two ends
  against each other, then makes the missing ancestors of the destination, then copies
  the items one after the other; the first that cannot be copied throws, and what was
  copied before stays.
\<close>

definition below :: "path \<Rightarrow> filesystem \<Rightarrow> path list" where
  "below src fs =
     filter (\<lambda>r. r \<noteq> []) (map (\<lambda>e. drop (length src) (fst e))
       (filter (\<lambda>e. prefix src (fst e)) fs))"

definition items :: "path \<Rightarrow> filesystem \<Rightarrow> path list" where
  "items src fs =
     (case lookup fs src of Some Dir \<Rightarrow> [] # below src fs | _ \<Rightarrow> [[]])"

definition copySync :: "(path \<Rightarrow> bool) \<Rightarrow> path \<Rightarrow> path \<Rightarrow> filesystem effect" where
  "copySync deny src dst fs =
     (case lookup fs src of
        None \<Rightarrow> (Some (Errno ''ENOENT'' src), fs)
      | Some n \<Rightarrow>
          if src = dst
            then (Some (FsExtraError ''Source and destination must not be the same.''), fs)
          else if n = Dir \<and> lookup fs dst \<noteq> None \<and> lookup fs dst \<noteq> Some Dir
            then (Some (FsExtraError ''Cannot overwrite non-directory with directory''), fs)
          else if n \<noteq> Dir \<and> lookup fs dst = Some Dir
            then (Some (FsExtraError ''Cannot overwrite directory with non-directory''), fs)
          else if n = Dir \<and> prefix src dst
            then (Some (FsExtraError ''Cannot copy to a subdirectory of itself''), fs)
          else
            (case mkdirs deny (prefixes (butlast dst)) fs of
               (Some e, fs') \<Rightarrow> (Some e, fs')
             | (None, fs') \<Rightarrow> copyItems deny src dst (items src fs') fs'))"

subsection \<open>The process and its surroundings\<close>

text \<open>
  \<open>world\<close> is what a run changes: the file system, the working directory, the lines
  of \<^verbatim>\<open>console.log\<close> and the values of \<^verbatim>\<open>console.error\<close> in order, and the
  commands handed to \<^verbatim>\<open>execSync\<close> in order.
\<close>

record world =
  files :: filesystem
  cwd :: path
  stdout :: "string list"
  stderr :: "js_error list"
  execs :: "string list"

text \<open>The result of \<^verbatim>\<open>validate-npm-package-name\<close>; an absent list is \<open>None\<close>.\<close>

record validation =
  validForNewPackages :: bool
  errors :: "string list option"
  warnings :: "string list option"

text \<open>What the user does at a text prompt: types a line and submits it, or cancels.\<close>

datatype text_event = Enter string | Cancel

text \<open>
  What a command line handed to \<^verbatim>\<open>/bin/sh\<close> does: it exits with a status, has
  printed a text on its standard output, and leaves a file system. A command that
  prints more than the caller's buffer holds is killed there; its result is then what
  it had printed and done when it was killed.
\<close>

record sh_result =
  exitStatus :: nat
  stdoutText :: string
  filesAfter :: filesystem

text \<open>
  What one \<^verbatim>\<open>curl -s\<close> request does, when the command line is that request
  and nothing else: the transfer fails and curl exits with its error code, or it
  prints the body of the response and exits with 0, whatever the HTTP status (there is
  no \<^verbatim>\<open>--fail\<close>). It writes no file.
\<close>

datatype curl_result = CurlFailed nat | CurlDone nat string

definition curlRuns :: "curl_result \<Rightarrow> filesystem \<Rightarrow> sh_result" where
  "curlRuns r fs =
     (case r of
        CurlFailed code \<Rightarrow> \<lparr>exitStatus = code, stdoutText = [], filesAfter = fs\<rparr>
      | CurlDone http body \<Rightarrow> \<lparr>exitStatus = 0, stdoutText = body, filesAfter = fs\<rparr>)"

text \<open>
  \<open>env\<close> is what a run is given and does not change: the command line, the two
  manifests loaded at start (\<open>appPackage\<close> of the template, \<open>pkgName\<close> and
  \<open>pkgVersion\<close> for \<^verbatim>\<open>name\<close> and \<^verbatim>\<open>version\<close> of the tool's own), the place
  of the template, the collaborators (validator, path resolution, installer, the
  shell that runs the lookup command, JSON parser, number printing), the write
  permissions, and what the user does: the events at the name prompt until the input
  ends, the answer to the confirmation (\<open>None\<close> when cancelled), and the one event
  that ends the token prompt (the confirmation and the token prompt are taken to be
  answered or cancelled). The installer gets the working directory and the file
  system; the shell gets the command line as well.
\<close>

record env =
  argv :: "string list"
  appDir :: path
  appPackage :: "(string \<times> json) list"
  pkgName :: string
  pkgVersion :: string
  validateName :: "string \<Rightarrow> validation"
  path_resolve :: "path \<Rightarrow> string \<Rightarrow> path"
  denied :: "path \<Rightarrow> bool"
  npm_ci :: "path \<Rightarrow> filesystem \<Rightarrow> nat \<times> filesystem"
  sh :: "string \<Rightarrow> path \<Rightarrow> filesystem \<Rightarrow> sh_result"
  JSON_parse :: "string \<Rightarrow> json option"
  numberToString :: "number \<Rightarrow> string"
  nameEvents :: "text_event list"
  updateAnswer :: "bool option"
  tokenEvent :: text_event

definition console_log :: "string \<Rightarrow> world \<Rightarrow> world" where
  "console_log s w = w\<lparr>stdout := stdout w @ [s]\<rparr>"

definition console_error :: "js_error \<Rightarrow> world \<Rightarrow> world" where
  "console_error e w = w\<lparr>stderr := stderr w @ [e]\<rparr>"

definition onFiles :: "filesystem effect \<Rightarrow> world effect" where
  "onFiles f w = (case f (files w) of (r, fs') \<Rightarrow> (r, w\<lparr>files := fs'\<rparr>))"

definition andThen :: "'a effect \<Rightarrow> 'a effect \<Rightarrow> 'a effect" where
  "andThen a b w = (case a w of (Some e, w') \<Rightarrow> (Some e, w') | (None, w') \<Rightarrow> b w')"

definition chdir :: "path \<Rightarrow> world effect" where
  "chdir dir w =
     (case lookup (files w) dir of
        None \<Rightarrow> (Some (Errno ''ENOENT'' dir), w)
      | Some (File c) \<Rightarrow> (Some (Errno ''ENOTDIR'' dir), w)
      | Some Dir \<Rightarrow> (None, w\<lparr>cwd := dir\<rparr>))"

subsection \<open>The \<^verbatim>\<open>prompts\<close> library\<close>

text \<open>
  A \<open>validate\<close> callback returns \<^verbatim>\<open>true\<close> or a message, or throws.
\<close>

datatype verdict = IsTrue | Msg string

text \<open>
  A text prompt (also the masked one) takes the user's events in order. A submitted
  empty line stands for the prompt's \<open>initial\<close> value. The value goes to the
  callback: on \<^verbatim>\<open>true\<close> it is the answer; on a message the prompt shows the
  message and keeps asking; when the callback throws, the promise of the prompt never
  settles and the rejection stays unhandled. Cancelling leaves the answer
  \<^verbatim>\<open>undefined\<close>. When the input ends while the prompt is asking, its promise
  never settles (\<open>Pending\<close>). The result is the list of messages shown and how the
  prompt ended.
\<close>

datatype text_answer = Answered string | Undefined | ValidateThrew js_error | Pending

fun prompt_text ::
  "(string \<Rightarrow> js_error + verdict) \<Rightarrow> string \<Rightarrow> text_event list \<Rightarrow> string list \<times> text_answer"
where
  "prompt_text validate initial [] = ([], Pending)"
| "prompt_text validate initial (Cancel # rest) = ([], Undefined)"
| "prompt_text validate initial (Enter typed # rest) =
     (let v = (if typed = [] then initial else typed) in
      case validate v of
        Inl e \<Rightarrow> ([], ValidateThrew e)
      | Inr IsTrue \<Rightarrow> ([], Answered v)
      | Inr (Msg m) \<Rightarrow>
          (case prompt_text validate initial rest of (ms, a) \<Rightarrow> (m # ms, a)))"

subsection \<open>The script\<close>

text \<open>
  \<^verbatim>\<open>getApplicationId\<close>, lines 36 to 48. \<open>curlCommand\<close> is the command line the
  template literal builds; an \<^verbatim>\<open>undefined\<close> token prints as
  \<^verbatim>\<open>undefined\<close>. The token goes into the line as it is, between double quotes,
  and the line goes to the shell: what runs, and what it does to the files, is the
  shell's reading of the whole line.
\<close>

definition tpl :: "string option \<Rightarrow> string" where
  "tpl v = (case v of None \<Rightarrow> ''undefined'' | Some s \<Rightarrow> s)"

definition curlCommand :: "string option \<Rightarrow> string" where
  "curlCommand token =
     ''curl -s -X GET -H '' @ [DQ] @ ''Authorization: Bot '' @ tpl token @ [DQ] @ '' ''
       @ [DQ] @ ''https://discord.com/api/oauth2/applications/@me'' @ [DQ]"

text \<open>
  \<^verbatim>\<open>execSync(command)\<close> with the default options: the shell runs the command
  in the working directory; the call throws when the output is longer than
  \<^verbatim>\<open>maxBuffer\<close> (1 MiB, in bytes) and when the exit status is not 0, and returns
  the output otherwise. What the command did to the files stays done in every case.
\<close>

definition maxBuffer :: int where
  "maxBuffer = 1024 * 1024"

definition execSync :: "env \<Rightarrow> string \<Rightarrow> world \<Rightarrow> (js_error + string) \<times> world" where
  "execSync E command w =
     (let r = sh E command (cwd w) (files w) in
      (if maxBuffer < int (length (stdoutText r)) then Inl ENOBUFS
       else if exitStatus r \<noteq> 0 then Inl (ExecError command (exitStatus r))
       else Inr (stdoutText r),
       w\<lparr>files := filesAfter r, execs := execs w @ [command]\<rparr>))"

text \<open>
  The rest of the \<^verbatim>\<open>try\<close>, given what \<^verbatim>\<open>execSync\<close> did:
  \<^verbatim>\<open>JSON.parse\<close> throws on text that is not JSON, the read of \<^verbatim>\<open>.id\<close>
  throws on \<^verbatim>\<open>null\<close> and gives \<^verbatim>\<open>undefined\<close> on every value that has no
  such property; \<^verbatim>\<open>|| null\<close> turns every falsy value into \<^verbatim>\<open>null\<close>.
  The \<^verbatim>\<open>catch\<close> turns every throw into \<^verbatim>\<open>null\<close>.
\<close>

definition idOrNull :: "json option \<Rightarrow> json" where
  "idOrNull v = (case v of None \<Rightarrow> JNull | Some x \<Rightarrow> if truthy x then x else JNull)"

definition tryApplicationId :: "env \<Rightarrow> js_error + string \<Rightarrow> js_error + json" where
  "tryApplicationId E executed =
     (case executed of
        Inl e \<Rightarrow> Inl e
      | Inr response \<Rightarrow>
          (case JSON_parse E response of
             None \<Rightarrow> Inl SyntaxError
           | Some parsedResponse \<Rightarrow>
               (case parsedResponse of
                  JNull \<Rightarrow> Inl TypeError
                | JObject kvs \<Rightarrow> Inr (idOrNull (getProp kvs ''id''))
                | _ \<Rightarrow> Inr (idOrNull None))))"

definition getApplicationId :: "env \<Rightarrow> string option \<Rightarrow> world \<Rightarrow> json \<times> world" where
  "getApplicationId E token w =
     (case execSync E (curlCommand token) w of
        (executed, w') \<Rightarrow>
          (case tryApplicationId E executed of Inl e \<Rightarrow> JNull | Inr v \<Rightarrow> v, w'))"

text \<open>Lines 49 to 62: the constants of the module and the banner.\<close>

definition utilityNameAndVersion :: "env \<Rightarrow> string" where
  "utilityNameAndVersion E = pkgName E @ '' v'' @ pkgVersion E"

definition banner :: "env \<Rightarrow> string" where
  "banner E =
     ''This utility will walk you through creating a '' @ pkgName E @ '' application.''
       @ [NL, NL] @ ''Press ENTER to use the default.''
       @ [NL] @ ''Press ^C at any time to quit.''
       @ [NL, NL] @ utilityNameAndVersion E"

text \<open>
  Lines 64 to 77, the name prompt. Its \<open>initial\<close> is \<^verbatim>\<open>appPackage.name\<close>
  (a string by the \<^verbatim>\<open>Package\<close> type; anything else is no default). In
  \<open>validate\<close>, \<^verbatim>\<open>errors || warnings\<close> is \<open>errors\<close> whenever that list is
  there (an empty array is truthy), and \<^verbatim>\<open>.join\<close> throws when neither is.
\<close>

definition initialName :: "env \<Rightarrow> string" where
  "initialName E = (case getProp (appPackage E) ''name'' of Some (JString s) \<Rightarrow> s | _ \<Rightarrow> [])"

definition errorsOrWarnings :: "validation \<Rightarrow> string list option" where
  "errorsOrWarnings r = (case errors r of Some es \<Rightarrow> Some es | None \<Rightarrow> warnings r)"

definition validate :: "env \<Rightarrow> string \<Rightarrow> js_error + verdict" where
  "validate E name =
     (let r = validateName E name in
      if validForNewPackages r then Inr IsTrue
      else
        (case errorsOrWarnings r of
           None \<Rightarrow> Inl TypeError
         | Some ms \<Rightarrow> Inr (Msg (''Error: '' @ join '', '' ms @ ''.''))))"

definition askName :: "env \<Rightarrow> string list \<times> text_answer" where
  "askName E = prompt_text (validate E) (initialName E) (nameEvents E)"

text \<open>
  Lines 110 to 118, the token prompt: masked text, no callback, so the first event
  ends it.
\<close>

definition askToken :: "env \<Rightarrow> string option" where
  "askToken E =
     (case snd (prompt_text (\<lambda>v. Inr IsTrue) ''DISCORD_BOT_TOKEN_PLACEHOLDER'' [tokenEvent E]) of
        Answered t \<Rightarrow> Some t
      | _ \<Rightarrow> None)"

text \<open>A step, lines 24 to 29.\<close>

record step =
  message :: string
  action :: "world effect"
  ignoreDry :: bool

text \<open>Lines 99 to 108: the steps of an update.\<close>

definition updateCore :: "env \<Rightarrow> path \<Rightarrow> world effect" where
  "updateCore E dir =
     andThen
       (onFiles (copySync (denied E) (appDir E @ [''src'', ''core'']) (dir @ [''src'', ''core''])))
       (onFiles (copySync (denied E) (appDir E @ [''src'', ''index.js''])
          (dir @ [''src'', ''index.js''])))"

definition updateSteps :: "env \<Rightarrow> string \<Rightarrow> path \<Rightarrow> step list" where
  "updateSteps E name dir =
     [\<lparr>message = ''Updating core files in '' @ [SQ] @ name @ [SQ] @ ''...'',
       action = updateCore E dir,
       ignoreDry = False\<rparr>]"

text \<open>Lines 120 to 178: the steps of a creation.\<close>

definition createDirectory :: "env \<Rightarrow> path \<Rightarrow> world effect" where
  "createDirectory E dir = onFiles (mkdirSync (denied E) dir)"

definition createBoilerplate :: "env \<Rightarrow> path \<Rightarrow> world effect" where
  "createBoilerplate E dir =
     andThen
       (onFiles (copySync (denied E) (appDir E) dir))
       (onFiles (writeFileSync (denied E) (dir @ [''.gitignore''])
          (''node_modules/'' @ [NL] @ ''.env'' @ [NL])))"

definition description :: "env \<Rightarrow> string" where
  "description E = ''Generated by '' @ utilityNameAndVersion E @ ''.''"

definition newPackage :: "env \<Rightarrow> string \<Rightarrow> (string \<times> json) list" where
  "newPackage E name =
     setProp ''description'' (JString (description E))
       (setProp ''name'' (JString name) (appPackage E))"

definition updatePackageJson :: "env \<Rightarrow> string \<Rightarrow> path \<Rightarrow> world effect" where
  "updatePackageJson E name dir =
     onFiles (writeFileSync (denied E) (dir @ [''package.json''])
       (JSON_stringify2 (numberToString E) (JObject (newPackage E name)) @ [NL]))"

definition writeEnv :: "env \<Rightarrow> path \<Rightarrow> string option \<Rightarrow> world effect" where
  "writeEnv E dir token =
     onFiles (writeFileSync (denied E) (dir @ [''.env'']) (''DISCORD_BOT_TOKEN='' @ tpl token))"

text \<open>
  Line 162. The installer's command line is fixed, so the installer is a collaborator
  of its own: it gives the exit status and the file system it leaves (it counts as a
  failure, with a non-zero status, when \<^verbatim>\<open>execSync\<close> ends it for printing more
  than the buffer holds).
\<close>

definition execNpmCi :: "env \<Rightarrow> world effect" where
  "execNpmCi E w =
     (case npm_ci E (cwd w) (files w) of
        (status, fs') \<Rightarrow>
          (if status = 0 then None else Some (ExecError ''npm ci'' status),
           w\<lparr>files := fs', execs := execs w @ [''npm ci'']\<rparr>))"

definition installModules :: "env \<Rightarrow> path \<Rightarrow> world effect" where
  "installModules E dir = andThen (chdir dir) (execNpmCi E)"

text \<open>
  Lines 169 to 176. The argument of \<^verbatim>\<open>console.log\<close> is evaluated first, outside
  any \<^verbatim>\<open>try\<close>: interpolating the identifier throws when it has no string
  form, and then nothing is printed.
\<close>

definition inviteLine :: "env \<Rightarrow> json \<Rightarrow> js_error + string" where
  "inviteLine E applicationId =
     (if truthy applicationId
      then (case toString (numberToString E) applicationId of
              None \<Rightarrow> Inl TypeError
            | Some text \<Rightarrow>
                Inr (''Invite your bot: https://discord.com/oauth2/authorize?scope=bot&client_id=''
                       @ text))
      else Inr ''The given bot token was invalid so no invite link was generated.'')"

definition generateInvite :: "env \<Rightarrow> string option \<Rightarrow> world effect" where
  "generateInvite E token w =
     (case getApplicationId E token w of
        (applicationId, w') \<Rightarrow>
          (case inviteLine E applicationId of
             Inl e \<Rightarrow> (Some e, w')
           | Inr line \<Rightarrow> (None, console_log line w')))"

definition createSteps :: "env \<Rightarrow> string \<Rightarrow> path \<Rightarrow> string option \<Rightarrow> step list" where
  "createSteps E name dir token =
     [\<lparr>message = ''Creating directory '' @ [SQ] @ name @ [SQ] @ ''...'',
       action = createDirectory E dir,
       ignoreDry = False\<rparr>,
      \<lparr>message = ''Creating boilerplate...'',
       action = createBoilerplate E dir,
       ignoreDry = False\<rparr>,
      \<lparr>message = ''Updating package.json...'',
       action = updatePackageJson E name dir,
       ignoreDry = False\<rparr>,
      \<lparr>message = ''Writing .env...'',
       action = writeEnv E dir token,
       ignoreDry = False\<rparr>,
      \<lparr>message = ''Installing modules...'',
       action = installModules E dir,
       ignoreDry = False\<rparr>,
      \<lparr>message = [NL] @ ''Generating bot invite link...'',
       action = generateInvite E token,
       ignoreDry = True\<rparr>]"

text \<open>Lines 181 and 182: the first argument after the script's path.\<close>

definition isDryRun :: "string list \<Rightarrow> bool" where
  "isDryRun av = (case drop 2 av of [] \<Rightarrow> False | a # args \<Rightarrow> a = ''--dry-run'')"

text \<open>
  Lines 185 to 190, \<^verbatim>\<open>steps.forEach\<close>: print the message, then run the action
  unless the run is dry and the step is not exempt. A throw ends the loop.
\<close>

fun runSteps :: "bool \<Rightarrow> step list \<Rightarrow> world effect" where
  "runSteps dry [] w = (None, w)"
| "runSteps dry (s # ss) w =
     (if ignoreDry s \<or> \<not> dry
      then (case action s (console_log (message s) w) of
              (Some e, w') \<Rightarrow> (Some e, w')
            | (None, w') \<Rightarrow> runSteps dry ss w')
      else runSteps dry ss (console_log (message s) w))"

text \<open>
  How the handler of \<^verbatim>\<open>.then\<close> ends: it calls \<^verbatim>\<open>process.exit\<close>, or its
  promise is rejected with what was thrown.
\<close>

datatype settled = ProcessExit nat | Rejected js_error

definition doneMessage :: "string \<Rightarrow> string" where
  "doneMessage name =
     ''Done!'' @ [NL, NL] @ ''Start by running:'' @ [NL, TAB] @ ''$ cd '' @ name @ ''/''
       @ [NL, TAB] @ ''$ npm start''"

text \<open>Lines 181 to 194: run the steps, print the summary, exit with status 0.\<close>

definition execute :: "env \<Rightarrow> string \<Rightarrow> step list \<Rightarrow> world \<Rightarrow> settled \<times> world" where
  "execute E name steps w =
     (case runSteps (isDryRun (argv E)) steps (console_log [] w) of
        (Some e, w') \<Rightarrow> (Rejected e, w')
      | (None, w') \<Rightarrow> (ProcessExit 0, console_log (doneMessage name) (console_log [] w')))"

text \<open>
  Lines 78 to 195, the handler of \<^verbatim>\<open>.then\<close>. \<open>name\<close> is the answer of the name
  prompt, \<open>None\<close> when it is \<^verbatim>\<open>undefined\<close>, on which \<^verbatim>\<open>path.resolve\<close>
  throws. \<^verbatim>\<open>!update\<close> holds for \<^verbatim>\<open>false\<close> and for \<^verbatim>\<open>undefined\<close>.
\<close>

definition scaffold :: "env \<Rightarrow> string option \<Rightarrow> world \<Rightarrow> settled \<times> world" where
  "scaffold E answer w =
     (case answer of
        None \<Rightarrow> (Rejected TypeError, w)
      | Some name \<Rightarrow>
          (let dir = path_resolve E (cwd w) name;
               isUpdate = existsSync (files w) dir
           in if isUpdate
              then (if updateAnswer E \<noteq> Some True
                    then (Rejected (Thrown ''Quitting...''), console_log [] w)
                    else execute E name (updateSteps E name dir) w)
              else execute E name (createSteps E name dir (askToken E)) w))"

text \<open>
  How the process ends. A rejection that \<^verbatim>\<open>.catch(console.error)\<close> handles is
  printed and the chain is fulfilled; nothing is pending then and nothing has set an
  exit code, so Node ends the process with status 0. When \<open>validate\<close> throws, the
  prompt's promise never settles and neither handler runs: the rejection stays
  unhandled. When the input ends at the name prompt, its promise never settles either
  and neither handler runs (\<open>NeverSettles\<close>).
\<close>

datatype ending = ExitCode nat | Unhandled js_error | NeverSettles

definition answered :: "text_answer \<Rightarrow> string option" where
  "answered a = (case a of Answered name \<Rightarrow> Some name | _ \<Rightarrow> None)"

definition catchAndPrint :: "settled \<times> world \<Rightarrow> ending \<times> world" where
  "catchAndPrint r =
     (case r of
        (ProcessExit n, w) \<Rightarrow> (ExitCode n, w)
      | (Rejected e, w) \<Rightarrow> (ExitCode 0, console_error e w))"

definition main :: "env \<Rightarrow> world \<Rightarrow> ending \<times> world" where
  "main E w =
     (let w1 = console_log (banner E) w in
      case snd (askName E) of
        ValidateThrew e \<Rightarrow> (Unhandled e, w1)
      | Pending \<Rightarrow> (NeverSettles, w1)
      | a \<Rightarrow> catchAndPrint (scaffold E (answered a) w1))"

subsection \<open>Notions the properties are stated with\<close>

text \<open>An effect on the world that touches the file system only.\<close>

definition filesOnly :: "world effect \<Rightarrow> bool" where
  "filesOnly a =
     (\<forall>w. cwd (snd (a w)) = cwd w \<and> stdout (snd (a w)) = stdout w
        \<and> stderr (snd (a w)) = stderr w \<and> execs (snd (a w)) = execs w)"


text \<open>The \<^verbatim>\<open>id\<close> property of a parsed response, if it has one.\<close>

definition idField :: "json \<Rightarrow> json option" where
  "idField p = (case p of JObject kvs \<Rightarrow> getProp kvs ''id'' | _ \<Rightarrow> None)"

definition fallbackLine :: string where
  "fallbackLine = ''The given bot token was invalid so no invite link was generated.''"







text \<open>
  Two paths are apart when neither lies at or below the other. \<open>synced\<close> says that
  a copy from \<open>src\<close> to \<open>dst\<close> has nothing left to change: the ancestors of the
  destination are directories, every item of the source has its like at the
  destination, and the files among them may be written.
\<close>

definition apart :: "path \<Rightarrow> path \<Rightarrow> bool" where
  "apart a b = (\<not> prefix a b \<and> \<not> prefix b a)"

definition keys :: "filesystem \<Rightarrow> path set" where
  "keys fs = set (map fst fs)"

definition synced :: "(path \<Rightarrow> bool) \<Rightarrow> path \<Rightarrow> path \<Rightarrow> filesystem \<Rightarrow> bool" where
  "synced deny src dst fs =
     (lookup fs src \<noteq> None
      \<and> list_all (\<lambda>q. lookup fs q = Some Dir) (prefixes (butlast dst))
      \<and> list_all (\<lambda>r. lookup fs (src @ r) \<noteq> None
                      \<and> lookup fs (dst @ r) = lookup fs (src @ r)
                      \<and> (lookup fs (src @ r) = Some Dir \<or> \<not> deny (dst @ r)))
           (items src fs))"

subsection \<open>Sample runs\<close>

text \<open>
  A small installation: the tool with its template under \<^verbatim>\<open>/tool/app\<close>, the user
  in \<^verbatim>\<open>/home\<close>. The user first types a name the validator rejects with an error
  and a warning, then \<^verbatim>\<open>my-bot\<close>, and the token \<^verbatim>\<open>abc\<close>. The validator
  rejects \<^verbatim>\<open>.my bot\<close> with two errors and \<^verbatim>\<open>MyBot\<close> with a warning only. The installer adds \<^verbatim>\<open>node_modules\<close> and
  succeeds; the lookup answers with the identifier 7.
\<close>

definition idBody :: string where
  "idBody = ''{'' @ [DQ] @ ''id'' @ [DQ] @ '':'' @ [DQ] @ ''7'' @ [DQ] @ ''}''"

definition emptyIdBody :: string where
  "emptyIdBody = ''{'' @ [DQ] @ ''id'' @ [DQ] @ '':'' @ [DQ, DQ] @ ''}''"

definition unauthorizedBody :: string where
  "unauthorizedBody =
     ''{'' @ [DQ] @ ''message'' @ [DQ] @ '': '' @ [DQ] @ ''401: Unauthorized'' @ [DQ]
       @ '', '' @ [DQ] @ ''code'' @ [DQ] @ '': 0}''"

definition objectIdBody :: string where
  "objectIdBody =
     ''{'' @ [DQ] @ ''id'' @ [DQ] @ '':{'' @ [DQ] @ ''toString'' @ [DQ] @ '':1}}''"

text \<open>\<^verbatim>\<open>JSON.parse\<close> on the bodies the samples use; other text is not JSON here.\<close>

definition sampleParse :: "string \<Rightarrow> json option" where
  "sampleParse s =
     (if s = idBody then Some (JObject [(''id'', JString ''7'')])
      else if s = emptyIdBody then Some (JObject [(''id'', JString [])])
      else if s = unauthorizedBody
        then Some (JObject [(''message'', JString ''401: Unauthorized''),
                            (''code'', JNumber (Double 0))])
      else if s = objectIdBody
        then Some (JObject [(''id'', JObject [(''toString'', JNumber (Double 1))])])
      else None)"

text \<open>
  Two tokens with a double quote in them. Spliced into the command line, the first
  ends the header, gives curl a host that does not resolve, and goes on with
  \<^verbatim>\<open>touch pwned\<close>; the second leaves curl without a URL and goes on with
  \<^verbatim>\<open>rm -f .env package.json\<close>. Either line ends in an \<^verbatim>\<open>echo\<close> of an empty
  string and the URL, which is all the output and gives the exit status 0.
\<close>

definition touchToken :: string where
  "touchToken = ''x'' @ [DQ] @ '' '' @ [DQ] @ ''http://ignored'' @ [DQ] @ ''; touch pwned; echo '' @ [DQ]"

definition rmToken :: string where
  "rmToken = ''x'' @ [DQ] @ ''; rm -f .env package.json; echo '' @ [DQ]"

definition echoLine :: string where
  "echoLine = '' https://discord.com/api/oauth2/applications/@me'' @ [NL]"

text \<open>
  The shell of the samples: the two command lines above do what they spell in the
  working directory; every other line is a curl request that the service answers with
  200 and the identifier 7.
\<close>

definition sampleShell :: "string \<Rightarrow> path \<Rightarrow> filesystem \<Rightarrow> sh_result" where
  "sampleShell command c fs =
     (if command = curlCommand (Some touchToken)
        then \<lparr>exitStatus = 0, stdoutText = echoLine,
              filesAfter = (c @ [''pwned''], File []) # fs\<rparr>
      else if command = curlCommand (Some rmToken)
        then \<lparr>exitStatus = 0, stdoutText = echoLine,
              filesAfter =
                filter (\<lambda>e. fst e \<noteq> c @ [''.env''] \<and> fst e \<noteq> c @ [''package.json'']) fs\<rparr>
      else curlRuns (CurlDone 200 idBody) fs)"

definition demoEnv :: env where
  "demoEnv =
     \<lparr>argv = [''node'', ''create-discord-bot''],
      appDir = [''tool'', ''app''],
      appPackage =
        [(''name'', JString ''discord-bot''), (''version'', JString ''1.0.0''),
         (''description'', JString ''A bot''),
         (''scripts'', JObject [(''start'', JString ''node src/index.js''),
                                (''dev'', JString ''nodemon src/index.js'')]),
         (''private'', JBool True),
         (''keywords'', JArray [JString ''discord'', JString ''bot'']),
         (''dependencies'', JObject [])],
      pkgName = ''create-discord-bot'',
      pkgVersion = ''2.0.0'',
      validateName = (\<lambda>n.
         if n = ''Bad Name''
         then \<lparr>validForNewPackages = False,
               errors = Some [''name can only contain URL-friendly characters''],
               warnings = Some [''name can no longer contain capital letters'']\<rparr>
         else if n = ''.my bot''
         then \<lparr>validForNewPackages = False,
               errors = Some [''name cannot start with a period'',
                              ''name can only contain URL-friendly characters''],
               warnings = None\<rparr>
         else if n = ''MyBot''
         then \<lparr>validForNewPackages = False,
               errors = None,
               warnings = Some [''name can no longer contain capital letters'']\<rparr>
         else \<lparr>validForNewPackages = True, errors = None, warnings = None\<rparr>),
      path_resolve = (\<lambda>c n. c @ [n]),
      denied = (\<lambda>p. False),
      npm_ci = (\<lambda>c fs. (0, (c @ [''node_modules''], Dir) # fs)),
      sh = sampleShell,
      JSON_parse = sampleParse,
      numberToString = (\<lambda>n. ''0''),
      nameEvents = [Enter ''Bad Name'', Enter ''my-bot''],
      updateAnswer = None,
      tokenEvent = Enter ''abc''\<rparr>"


definition demoWorld :: world where
  "demoWorld =
     \<lparr>files =
        [([''tool''], Dir), ([''tool'', ''app''], Dir),
         ([''tool'', ''app'', ''package.json''], File ''{}''),
         ([''tool'', ''app'', ''src''], Dir),
         ([''tool'', ''app'', ''src'', ''core''], Dir),
         ([''tool'', ''app'', ''src'', ''core'', ''bot.js''], File ''core''),
         ([''tool'', ''app'', ''src'', ''core'', ''util''], Dir),
         ([''tool'', ''app'', ''src'', ''core'', ''util'', ''log.js''], File ''log''),
         ([''tool'', ''app'', ''src'', ''index.js''], File ''index''),
         ([''home''], Dir)],
      cwd = [''home''], stdout = [], stderr = [], execs = []\<rparr>"


definition failingInstallEnv :: env where
  "failingInstallEnv = demoEnv\<lparr>npm_ci := (\<lambda>c fs. (1, fs))\<rparr>"

text \<open>The user who types a name with capital letters first.\<close>

definition capitalsEnv :: env where
  "capitalsEnv = demoEnv\<lparr>nameEvents := [Enter ''MyBot'', Enter ''my-bot'']\<rparr>"



text \<open>
  A world where \<^verbatim>\<open>/home/my-bot\<close> is there already, with a secrets file and an
  older \<^verbatim>\<open>src/core/bot.js\<close>.
\<close>

definition updatedWorld :: world where
  "updatedWorld = demoWorld\<lparr>files :=
     ([''home'', ''my-bot'', ''src'', ''core'', ''bot.js''], File ''old'')
       # ([''home'', ''my-bot'', ''src'', ''core''], Dir)
       # ([''home'', ''my-bot'', ''src''], Dir)
       # ([''home'', ''my-bot'', ''.env''], File ''DISCORD_BOT_TOKEN=abc'')
       # ([''home'', ''my-bot''], Dir) # files demoWorld\<rparr>"

text \<open>
  Lookups that go wrong: the transfer fails; the body is not JSON; the service answers
  401 with its error body; the service answers 401 with a body that has an identifier;
  the service answers 200 with an empty identifier; the output, the identifier 7
  followed by blanks (which \<^verbatim>\<open>JSON.parse\<close> skips), is longer than the buffer;
  the identifier is an object with a member named \<^verbatim>\<open>toString\<close>.
\<close>

definition transportErrorEnv :: env where
  "transportErrorEnv = demoEnv\<lparr>sh := (\<lambda>cmd c fs. curlRuns (CurlFailed 6) fs)\<rparr>"




definition emptyIdEnv :: env where
  "emptyIdEnv = demoEnv\<lparr>sh := (\<lambda>cmd c fs. curlRuns (CurlDone 200 emptyIdBody) fs)\<rparr>"




section \<open>Properties\<close>

subsection \<open>The step runner\<close>

lemma runSteps_append:
  "runSteps dry (xs @ ys) w =
     (case runSteps dry xs w of (Some e, w') \<Rightarrow> (Some e, w') | (None, w') \<Rightarrow> runSteps dry ys w')"
  by (induction xs arbitrary: w) (auto split: prod.splits option.splits)



lemma filesOnly_onFiles: "filesOnly (onFiles f)"
  by (auto simp: filesOnly_def onFiles_def split: prod.splits)

lemma filesOnlyD:
  assumes "filesOnly a" and "a w = (r, w')"
  shows "cwd w' = cwd w" and "stdout w' = stdout w" and "stderr w' = stderr w"
    and "execs w' = execs w"
proof -
  from assms(1) have "cwd (snd (a w)) = cwd w \<and> stdout (snd (a w)) = stdout w
        \<and> stderr (snd (a w)) = stderr w \<and> execs (snd (a w)) = execs w"
    unfolding filesOnly_def by blast
  with assms(2) show "cwd w' = cwd w" and "stdout w' = stdout w" and "stderr w' = stderr w"
    and "execs w' = execs w"
    by simp_all
qed

lemma filesOnly_andThen:
  assumes "filesOnly a" and "filesOnly b"
  shows "filesOnly (andThen a b)"
  unfolding filesOnly_def
proof
  fix w
  obtain r1 w1 where a: "a w = (r1, w1)" by (cases "a w")
  obtain r2 w2 where b: "b w1 = (r2, w2)" by (cases "b w1")
  note filesOnlyD[OF assms(1) a] filesOnlyD[OF assms(2) b]
  then show "cwd (snd (andThen a b w)) = cwd w \<and> stdout (snd (andThen a b w)) = stdout w
        \<and> stderr (snd (andThen a b w)) = stderr w \<and> execs (snd (andThen a b w)) = execs w"
    using a b by (cases r1) (simp_all add: andThen_def)
qed

text \<open>
  Steps that touch the file system only: the run prints the messages of the steps it
  reached, all of them when it did not throw, and leaves the rest of the world alone.
\<close>

lemma runSteps_filesOnly:
  assumes "\<forall>s\<in>set ss. filesOnly (action s)"
    and "runSteps dry ss w = (r, w')"
  shows "\<exists>n\<le>length ss. stdout w' = stdout w @ map message (take n ss)
           \<and> (r = None \<longrightarrow> n = length ss)
           \<and> cwd w' = cwd w \<and> stderr w' = stderr w \<and> execs w' = execs w"
  using assms
proof (induction ss arbitrary: w)
  case Nil
  then show ?case by simp
next
  case (Cons s ss)
  let ?w1 = "console_log (message s) w"
  have tl: "\<forall>t\<in>set ss. filesOnly (action t)"
    using Cons.prems(1) by simp
  have hd: "filesOnly (action s)"
    using Cons.prems(1) by simp
  show ?case
  proof (cases "ignoreDry s \<or> \<not> dry")
    case run: True
    obtain r1 v1 where a: "action s ?w1 = (r1, v1)" by (cases "action s ?w1")
    have v1: "cwd v1 = cwd w" "stderr v1 = stderr w" "execs v1 = execs w"
      "stdout v1 = stdout w @ [message s]"
      using filesOnlyD[OF hd a] by (simp_all add: console_log_def)
    show ?thesis
    proof (cases r1)
      case None
      with run a Cons.prems(2) have "runSteps dry ss v1 = (r, w')" by simp
      from Cons.IH[OF tl this]
      obtain n where n: "n \<le> length ss"
        "stdout w' = stdout v1 @ map message (take n ss)"
        "r = None \<longrightarrow> n = length ss"
        "cwd w' = cwd v1" "stderr w' = stderr v1" "execs w' = execs v1"
        by auto
      then show ?thesis
        using v1 by (intro exI[of _ "Suc n"]) simp
    next
      case (Some e)
      with run a Cons.prems(2) have "r = Some e" "w' = v1" by simp_all
      then show ?thesis
        using v1 by (intro exI[of _ 1]) simp
    qed
  next
    case skip: False
    with Cons.prems(2) have "runSteps dry ss ?w1 = (r, w')" by simp
    from Cons.IH[OF tl this]
    obtain n where n: "n \<le> length ss"
      "stdout w' = stdout ?w1 @ map message (take n ss)"
      "r = None \<longrightarrow> n = length ss"
      "cwd w' = cwd ?w1" "stderr w' = stderr ?w1" "execs w' = execs ?w1"
      by auto
    then show ?thesis
      by (intro exI[of _ "Suc n"]) (simp add: console_log_def)
  qed
qed

lemma filesOnly_create:
  "filesOnly (createDirectory E dir)" "filesOnly (createBoilerplate E dir)"
  "filesOnly (updatePackageJson E name dir)" "filesOnly (writeEnv E dir token)"
  by (simp_all add: createDirectory_def createBoilerplate_def updatePackageJson_def
      writeEnv_def filesOnly_onFiles filesOnly_andThen)

lemma filesOnly_updateCore: "filesOnly (updateCore E dir)"
  by (simp add: updateCore_def filesOnly_onFiles filesOnly_andThen)

lemma createSteps_split:
  "createSteps E name dir token =
     take 4 (createSteps E name dir token) @
     [\<lparr>message = ''Installing modules...'', action = installModules E dir, ignoreDry = False\<rparr>,
      \<lparr>message = [NL] @ ''Generating bot invite link...'', action = generateInvite E token,
       ignoreDry = True\<rparr>]"
  by (simp add: createSteps_def)

lemma length_createSteps: "length (createSteps E name dir token) = 6"
  by (simp add: createSteps_def)

lemma message_install:
  "map message (take 5 (createSteps E name dir token)) =
     map message (take 4 (createSteps E name dir token)) @ [''Installing modules...'']"
  by (simp add: createSteps_def)

lemma take4_filesOnly:
  "\<forall>s\<in>set (take 4 (createSteps E name dir token)). filesOnly (action s)"
  by (simp add: createSteps_def filesOnly_create)

lemma askName_cong:
  assumes "validateName E' = validateName E" and "appPackage E' = appPackage E"
    and "nameEvents E' = nameEvents E"
  shows "askName E' = askName E"
proof -
  have "validate E' = validate E"
    using assms(1) by (simp add: fun_eq_iff validate_def)
  with assms(2,3) show ?thesis
    by (simp add: askName_def initialName_def)
qed

lemma demo_answer: "snd (askName demoEnv) = Answered ''my-bot''"
  by (simp add: askName_def demoEnv_def validate_def errorsOrWarnings_def initialName_def
      getProp_def)

lemma demo_target_exists:
  "existsSync (files updatedWorld) (path_resolve demoEnv (cwd updatedWorld) ''my-bot'')"
  by (simp add: existsSync_def lookup_def demoEnv_def demoWorld_def updatedWorld_def)

subsection \<open>A throwing step ends the plan\<close>

lemma runSteps_throw:
  assumes "runSteps dry pre w = (None, w1)"
    and "ignoreDry s \<or> \<not> dry"
    and "action s (console_log (message s) w1) = (Some e, w2)"
  shows "runSteps dry (pre @ s # post) w = (Some e, w2)"
  using assms by (simp add: runSteps_append)

lemma installModules_fails:
  assumes "\<forall>c fs. fst (npm_ci E c fs) \<noteq> 0"
    and "installModules E dir w = (r, w')"
  shows "r \<noteq> None" and "stdout w' = stdout w"
    and "execs w' = execs w \<or> execs w' = execs w @ [''npm ci'']"
proof -
  obtain st fs' where n: "npm_ci E dir (files w) = (st, fs')"
    by (cases "npm_ci E dir (files w)")
  with assms(1) have "st \<noteq> 0" by (metis fst_conv)
  with n assms(2) show "r \<noteq> None" and "stdout w' = stdout w"
    and "execs w' = execs w \<or> execs w' = execs w @ [''npm ci'']"
    by (auto simp: installModules_def andThen_def chdir_def execNpmCi_def
        split: option.splits node.splits)
qed

lemma create_install_fails:
  assumes npm: "\<forall>c fs. fst (npm_ci E c fs) \<noteq> 0"
    and run: "runSteps False (createSteps E name dir token) w = (r, w')"
  shows "r \<noteq> None \<and>
     (\<exists>n\<le>5. stdout w' = stdout w @ map message (take n (createSteps E name dir token))) \<and>
     (execs w' = execs w \<or> execs w' = execs w @ [''npm ci''])"
proof -
  let ?cs = "createSteps E name dir token"
  obtain r1 w1 where r1: "runSteps False (take 4 ?cs) w = (r1, w1)"
    by (cases "runSteps False (take 4 ?cs) w")
  from runSteps_filesOnly[OF take4_filesOnly r1]
  obtain n where n0: "n \<le> length (take 4 ?cs)"
    "stdout w1 = stdout w @ map message (take n (take 4 ?cs))"
    "r1 = None \<longrightarrow> n = length (take 4 ?cs)" "execs w1 = execs w"
    by blast
  have n: "n \<le> 4" "stdout w1 = stdout w @ map message (take n ?cs)"
    "r1 = None \<longrightarrow> n = 4" "execs w1 = execs w"
    using n0 by (simp_all add: length_createSteps min_def)
  show ?thesis
  proof (cases r1)
    case (Some e)
    with run r1 have "r = Some e" "w' = w1"
      by (subst (asm) createSteps_split, simp add: runSteps_append)+
    with n show ?thesis
      by (intro conjI exI[of _ n]) simp_all
  next
    case None
    let ?w2 = "console_log ''Installing modules...'' w1"
    obtain r2 w3 where i: "installModules E dir ?w2 = (r2, w3)"
      by (cases "installModules E dir ?w2")
    from installModules_fails[OF npm i] obtain e where e: "r2 = Some e"
      and w3: "stdout w3 = stdout ?w2" "execs w3 = execs ?w2 \<or> execs w3 = execs ?w2 @ [''npm ci'']"
      by auto
    from run r1 None i e have "r = Some e" "w' = w3"
      by (subst (asm) createSteps_split, simp add: runSteps_append)+
    moreover from None n have "n = 4" by simp
    ultimately show ?thesis
      using n w3 by (intro conjI exI[of _ 5]) (auto simp: console_log_def message_install)
  qed
qed

lemma scaffold_install_fails:
  assumes "\<not> isDryRun (argv E)"
    and "\<not> existsSync (files v) (path_resolve E (cwd v) name)"
    and npm: "\<forall>c fs. fst (npm_ci E c fs) \<noteq> 0"
  shows "\<exists>err v' n. scaffold E (Some name) v = (Rejected err, v') \<and> n \<le> 5
     \<and> stdout v' = stdout v @ [] # map message
          (take n (createSteps E name (path_resolve E (cwd v) name) (askToken E)))
     \<and> (execs v' = execs v \<or> execs v' = execs v @ [''npm ci''])"
proof -
  let ?dir = "path_resolve E (cwd v) name"
  let ?cs = "createSteps E name ?dir (askToken E)"
  obtain r v' where run: "runSteps False ?cs (console_log [] v) = (r, v')"
    by (cases "runSteps False ?cs (console_log [] v)")
  from create_install_fails[OF npm run] obtain err n where
    "r = Some err" "n \<le> 5" "stdout v' = stdout (console_log [] v) @ map message (take n ?cs)"
    "execs v' = execs (console_log [] v) \<or> execs v' = execs (console_log [] v) @ [''npm ci'']"
    by auto
  with assms(1,2) run show ?thesis
    by (intro exI[of _ err] exI[of _ v'] exI[of _ n])
       (simp add: scaffold_def execute_def console_log_def)
qed

text \<open>
  Claim C7. If the action of a step throws, no later step runs: whatever follows the
  step in the plan, the run ends with that error in the world the throwing action left,
  so no later message is printed and no later action has an effect. On the create plan
  with an installer that exits non-zero the run is rejected having printed at most the
  messages of the first five steps and having run no command but the installer: the
  invite-link step, the sixth, neither prints nor looks anything up.
\<close>

theorem throwing_step_ends_plan:
  "(runSteps dry pre w = (None, w1) \<and> (ignoreDry s \<or> \<not> dry)
      \<and> action s (console_log (message s) w1) = (Some e, w2)
    \<longrightarrow> runSteps dry (pre @ s # post) w = (Some e, w2))
   \<and> (\<not> isDryRun (argv E) \<and> \<not> existsSync (files v) (path_resolve E (cwd v) name)
        \<and> (\<forall>c fs. fst (npm_ci E c fs) \<noteq> 0)
    \<longrightarrow> (\<exists>err v' n. scaffold E (Some name) v = (Rejected err, v') \<and> n \<le> 5
           \<and> stdout v' = stdout v @ [] # map message
                (take n (createSteps E name (path_resolve E (cwd v) name) (askToken E)))
           \<and> (execs v' = execs v \<or> execs v' = execs v @ [''npm ci''])))"
  using runSteps_throw scaffold_install_fails by blast

theorem throwing_step_ends_plan_witness:
  "runSteps False (createSteps failingInstallEnv ''my-bot'' [''home'', ''my-bot''] (Some ''abc''))
      demoWorld =
     (Some (ExecError ''npm ci'' 1),
      snd (installModules failingInstallEnv [''home'', ''my-bot'']
        (console_log ''Installing modules...''
          (snd (runSteps False
             (take 4 (createSteps failingInstallEnv ''my-bot'' [''home'', ''my-bot''] (Some ''abc'')))
             demoWorld)))))
   \<and> (\<exists>err v' n. scaffold failingInstallEnv (Some ''my-bot'') demoWorld = (Rejected err, v')
         \<and> n \<le> 5
         \<and> stdout v' = stdout demoWorld @ [] # map message
              (take n (createSteps failingInstallEnv ''my-bot''
                 (path_resolve failingInstallEnv (cwd demoWorld) ''my-bot'')
                 (askToken failingInstallEnv)))
         \<and> (execs v' = execs demoWorld \<or> execs v' = execs demoWorld @ [''npm ci'']))"
proof -
  let ?E = failingInstallEnv
  let ?dir = "[''home'', ''my-bot'']"
  let ?cs = "createSteps ?E ''my-bot'' ?dir (Some ''abc'')"
  let ?s = "\<lparr>message = ''Installing modules...'', action = installModules ?E ?dir,
             ignoreDry = False\<rparr>"
  let ?post = "[\<lparr>message = [NL] @ ''Generating bot invite link...'',
                 action = generateInvite ?E (Some ''abc''), ignoreDry = True\<rparr>]"
  let ?w1 = "snd (runSteps False (take 4 ?cs) demoWorld)"
  let ?w2 = "snd (installModules ?E ?dir (console_log ''Installing modules...'' ?w1))"
  have "fst (runSteps False (take 4 ?cs) demoWorld) = None"
    by code_simp
  then have pre: "runSteps False (take 4 ?cs) demoWorld = (None, ?w1)"
    by (simp add: prod_eq_iff)
  have "fst (installModules ?E ?dir (console_log ''Installing modules...'' ?w1))
      = Some (ExecError ''npm ci'' 1)"
    by code_simp
  then have act: "action ?s (console_log (message ?s) ?w1) = (Some (ExecError ''npm ci'' 1), ?w2)"
    by (simp add: prod_eq_iff)
  have dry: "\<not> isDryRun (argv ?E)"
    by (simp add: failingInstallEnv_def demoEnv_def isDryRun_def)
  have new: "\<not> existsSync (files demoWorld) (path_resolve ?E (cwd demoWorld) ''my-bot'')"
    by (simp add: existsSync_def lookup_def failingInstallEnv_def demoEnv_def demoWorld_def)
  have npm: "\<forall>c fs. fst (npm_ci ?E c fs) \<noteq> 0"
    by (simp add: failingInstallEnv_def)
  note t = throwing_step_ends_plan[of False "take 4 ?cs" demoWorld ?w1 ?s
      "ExecError ''npm ci'' 1" ?w2 ?post ?E demoWorld "''my-bot''"]
  have split: "?cs = take 4 ?cs @ ?s # ?post"
    by (simp add: createSteps_def)
  from t pre act have "runSteps False (take 4 ?cs @ ?s # ?post) demoWorld
      = (Some (ExecError ''npm ci'' 1), ?w2)"
    by blast
  then have one: "runSteps False ?cs demoWorld = (Some (ExecError ''npm ci'' 1), ?w2)"
    using split by simp
  from t dry new npm show ?thesis
    using one by blast
qed

subsection \<open>The identity lookup\<close>

lemma getApplicationId_world:
  "snd (getApplicationId E token w) =
     w\<lparr>files := filesAfter (sh E (curlCommand token) (cwd w) (files w)),
       execs := execs w @ [curlCommand token]\<rparr>"
  by (simp add: getApplicationId_def execSync_def Let_def)

lemma getApplicationId_value:
  "fst (getApplicationId E token w) =
     (if maxBuffer < int (length (stdoutText (sh E (curlCommand token) (cwd w) (files w))))
         \<or> exitStatus (sh E (curlCommand token) (cwd w) (files w)) \<noteq> 0
      then JNull
      else (case JSON_parse E (stdoutText (sh E (curlCommand token) (cwd w) (files w))) of
              None \<Rightarrow> JNull
            | Some p \<Rightarrow> idOrNull (idField p)))"
  by (simp add: getApplicationId_def execSync_def Let_def tryApplicationId_def idField_def
      idOrNull_def split: option.splits json.splits)

lemma truthy_idOrNull: "truthy (idOrNull v) = (idOrNull v \<noteq> JNull)"
  by (cases v) (auto simp: idOrNull_def)

lemma getApplicationId_truthy:
  "truthy (fst (getApplicationId E token w)) = (fst (getApplicationId E token w) \<noteq> JNull)"
  by (simp add: getApplicationId_value truthy_idOrNull split: option.splits)

lemma generateInvite_cases:
  "generateInvite E token w =
     (case inviteLine E (fst (getApplicationId E token w)) of
        Inl e \<Rightarrow> (Some e, snd (getApplicationId E token w))
      | Inr line \<Rightarrow> (None, console_log line (snd (getApplicationId E token w))))"
  by (cases "getApplicationId E token w") (simp add: generateInvite_def split: sum.splits)

lemma generateInvite_null:
  assumes "fst (getApplicationId E token w) = JNull"
  shows "generateInvite E token w =
     (None, w\<lparr>files := filesAfter (sh E (curlCommand token) (cwd w) (files w)),
              execs := execs w @ [curlCommand token],
              stdout := stdout w @ [fallbackLine]\<rparr>)"
  using assms
  by (simp add: generateInvite_cases getApplicationId_world inviteLine_def console_log_def
      fallbackLine_def)



lemma falsy_values:
  "(\<not> truthy v) = (v = JString [] \<or> v = JNumber (Double 0) \<or> v = JBool False \<or> v = JNull)"
  by (cases v) auto

text \<open>
  Claim C10. \<^verbatim>\<open>getApplicationId\<close> returns \<^verbatim>\<open>null\<close> also when the command
  succeeds, the response is well formed and its identifier is falsy, which for a JSON
  value means the empty string, 0, \<^verbatim>\<open>false\<close> or \<^verbatim>\<open>null\<close>: the result, value
  and world, is the one of a lookup whose command failed (having done the same to the
  files), so the caller cannot tell the two apart, and the invite-link step prints the
  invalid-token message.
\<close>

theorem falsy_identifier_reads_as_failure:
  "(\<not> truthy v) = (v = JString [] \<or> v = JNumber (Double 0) \<or> v = JBool False \<or> v = JNull)
   \<and> (sh E (curlCommand token) (cwd w) (files w) = r \<and> exitStatus r = 0
        \<and> JSON_parse E (stdoutText r) = Some (JObject kvs)
        \<and> getProp kvs ''id'' = Some v \<and> \<not> truthy v
      \<longrightarrow> fst (getApplicationId E token w) = JNull
          \<and> generateInvite E token w =
               (None, w\<lparr>files := filesAfter r,
                        execs := execs w @ [curlCommand token],
                        stdout := stdout w @ [fallbackLine]\<rparr>)
          \<and> (sh E' (curlCommand token) (cwd w) (files w) = r' \<and> exitStatus r' \<noteq> 0
                \<and> filesAfter r' = filesAfter r
               \<longrightarrow> getApplicationId E' token w = getApplicationId E token w))"
proof (intro conjI impI)
  show "(\<not> truthy v) = (v = JString [] \<or> v = JNumber (Double 0) \<or> v = JBool False \<or> v = JNull)"
    by (rule falsy_values)
next
  assume h: "sh E (curlCommand token) (cwd w) (files w) = r \<and> exitStatus r = 0
        \<and> JSON_parse E (stdoutText r) = Some (JObject kvs)
        \<and> getProp kvs ''id'' = Some v \<and> \<not> truthy v"
  then show null: "fst (getApplicationId E token w) = JNull"
    by (simp add: getApplicationId_value idField_def idOrNull_def)
  from generateInvite_null[OF this] h show "generateInvite E token w =
      (None, w\<lparr>files := filesAfter r, execs := execs w @ [curlCommand token],
               stdout := stdout w @ [fallbackLine]\<rparr>)"
    by simp
  assume f: "sh E' (curlCommand token) (cwd w) (files w) = r' \<and> exitStatus r' \<noteq> 0
                \<and> filesAfter r' = filesAfter r"
  then have "fst (getApplicationId E' token w) = JNull"
    by (simp add: getApplicationId_value)
  with null h f show "getApplicationId E' token w = getApplicationId E token w"
    by (simp add: prod_eq_iff getApplicationId_world)
qed

theorem falsy_identifier_reads_as_failure_witness:
  "\<not> truthy (JString [])
   \<and> fst (getApplicationId emptyIdEnv (Some ''abc'') demoWorld) = JNull
   \<and> stdout (snd (generateInvite emptyIdEnv (Some ''abc'') demoWorld)) = [fallbackLine]
   \<and> execs (snd (generateInvite emptyIdEnv (Some ''abc'') demoWorld)) = [curlCommand (Some ''abc'')]
   \<and> getApplicationId transportErrorEnv (Some ''abc'') demoWorld
       = getApplicationId emptyIdEnv (Some ''abc'') demoWorld"
proof -
  let ?cmd = "curlCommand (Some ''abc'')"
  let ?r = "curlRuns (CurlDone 200 emptyIdBody) (files demoWorld)"
  let ?r' = "curlRuns (CurlFailed 6) (files demoWorld)"
  have c: "sh emptyIdEnv ?cmd (cwd demoWorld) (files demoWorld) = ?r \<and> exitStatus ?r = 0"
    by (simp add: emptyIdEnv_def curlRuns_def)
  have p: "JSON_parse emptyIdEnv (stdoutText ?r) = Some (JObject [(''id'', JString [])])"
    by (simp add: emptyIdEnv_def demoEnv_def sampleParse_def emptyIdBody_def idBody_def
        curlRuns_def)
  have i: "getProp [(''id'', JString [])] ''id'' = Some (JString [])"
    by (simp add: getProp_def)
  have f: "\<not> truthy (JString [])" by simp
  have t: "sh transportErrorEnv ?cmd (cwd demoWorld) (files demoWorld) = ?r'
      \<and> exitStatus ?r' \<noteq> 0 \<and> filesAfter ?r' = filesAfter ?r"
    by (simp add: transportErrorEnv_def curlRuns_def)
  from falsy_identifier_reads_as_failure[of "JString []" emptyIdEnv "Some ''abc''" demoWorld ?r
      "[(''id'', JString [])]" transportErrorEnv ?r'] c p i f t
  have "fst (getApplicationId emptyIdEnv (Some ''abc'') demoWorld) = JNull"
    and "generateInvite emptyIdEnv (Some ''abc'') demoWorld =
         (None, demoWorld\<lparr>files := filesAfter ?r,
                          execs := execs demoWorld @ [?cmd],
                          stdout := stdout demoWorld @ [fallbackLine]\<rparr>)"
    and "getApplicationId transportErrorEnv (Some ''abc'') demoWorld
         = getApplicationId emptyIdEnv (Some ''abc'') demoWorld"
    by blast+
  then show ?thesis
    by (simp add: demoWorld_def)
qed





subsection \<open>Dry runs\<close>











subsection \<open>The name prompt\<close>

lemma prompt_text_answer_accepted:
  "snd (prompt_text v init evs) = Answered n \<Longrightarrow> v n = Inr IsTrue"
proof (induction evs)
  case Nil
  then show ?case by simp
next
  case (Cons ev evs)
  show ?case
  proof (cases ev)
    case Cancel
    with Cons.prems show ?thesis by simp
  next
    case (Enter typed)
    let ?c = "if typed = [] then init else typed"
    show ?thesis
    proof (cases "v ?c")
      case (Inl e)
      with Enter Cons.prems show ?thesis by simp
    next
      case (Inr verdict)
      show ?thesis
      proof (cases verdict)
        case IsTrue
        with Inr Enter Cons.prems show ?thesis by (auto simp: Let_def)
      next
        case (Msg m)
        with Inr Enter Cons.prems have "snd (prompt_text v init evs) = Answered n"
          by (simp add: Let_def split: prod.splits)
        then show ?thesis by (rule Cons.IH)
      qed
    qed
  qed
qed

lemma validate_IsTrue: "validate E n = Inr IsTrue \<Longrightarrow> validForNewPackages (validateName E n)"
  by (auto simp: validate_def Let_def split: if_splits option.splits)

lemma validate_rejects:
  assumes "\<not> validForNewPackages (validateName E c)"
    and "errors (validateName E c) = Some ms
         \<or> errors (validateName E c) = None \<and> warnings (validateName E c) = Some ms"
  shows "validate E c = Inr (Msg (''Error: '' @ join '', '' ms @ ''.''))"
  using assms by (auto simp: validate_def errorsOrWarnings_def)

lemma prompt_text_again:
  assumes "v (if typed = [] then init else typed) = Inr (Msg m)"
  shows "prompt_text v init (Enter typed # rest) =
     (m # fst (prompt_text v init rest), snd (prompt_text v init rest))"
  using assms by (simp add: Let_def split: prod.splits)

text \<open>
  Claim C8. A candidate the validator rejects is asked for again: the prompt shows
  \<^verbatim>\<open>Error: \<close>, the validator's errors joined by commas, or its warnings when it
  gives no errors, and a full stop, and goes on with what the user does next. The
  answer the run proceeds with, if any, is a name the validator accepts for new
  packages; when the input ends before a name is accepted the prompt stays pending and
  the run does nothing after the banner. An empty line stands for the name the
  template's manifest declares.
\<close>

theorem rejected_name_is_asked_again:
  "((if typed = [] then initialName E else typed) = c
      \<and> \<not> validForNewPackages (validateName E c)
      \<and> (errors (validateName E c) = Some ms
          \<or> errors (validateName E c) = None \<and> warnings (validateName E c) = Some ms)
    \<longrightarrow> prompt_text (validate E) (initialName E) (Enter typed # rest) =
          ((''Error: '' @ join '', '' ms @ ''.'') # fst (prompt_text (validate E) (initialName E) rest),
           snd (prompt_text (validate E) (initialName E) rest)))
   \<and> (snd (askName E) = Answered n \<longrightarrow> validForNewPackages (validateName E n))
   \<and> (snd (askName E) = Answered n \<longrightarrow>
         main E w = catchAndPrint (scaffold E (Some n) (console_log (banner E) w)))
   \<and> (snd (askName E) = Pending \<longrightarrow> main E w = (NeverSettles, console_log (banner E) w))
   \<and> (getProp (appPackage E) ''name'' = Some (JString d)
    \<longrightarrow> prompt_text (validate E) (initialName E) (Enter [] # rest) =
          prompt_text (validate E) (initialName E) (Enter d # rest))"
proof (intro conjI impI)
  let ?c = "if typed = [] then initialName E else typed"
  assume "?c = c \<and> \<not> validForNewPackages (validateName E c)
      \<and> (errors (validateName E c) = Some ms
          \<or> errors (validateName E c) = None \<and> warnings (validateName E c) = Some ms)"
  then have "validate E ?c = Inr (Msg (''Error: '' @ join '', '' ms @ ''.''))"
    using validate_rejects[of E c ms] by simp
  then show "prompt_text (validate E) (initialName E) (Enter typed # rest) =
          ((''Error: '' @ join '', '' ms @ ''.'') # fst (prompt_text (validate E) (initialName E) rest),
           snd (prompt_text (validate E) (initialName E) rest))"
    by (rule prompt_text_again)
next
  assume "snd (askName E) = Answered n"
  then have "validate E n = Inr IsTrue"
    unfolding askName_def by (rule prompt_text_answer_accepted)
  then show "validForNewPackages (validateName E n)"
    by (rule validate_IsTrue)
next
  assume "snd (askName E) = Answered n"
  then show "main E w = catchAndPrint (scaffold E (Some n) (console_log (banner E) w))"
    by (simp add: main_def answered_def)
next
  assume "snd (askName E) = Pending"
  then show "main E w = (NeverSettles, console_log (banner E) w)"
    by (simp add: main_def)
next
  assume "getProp (appPackage E) ''name'' = Some (JString d)"
  then have "initialName E = d" by (simp add: initialName_def)
  then show "prompt_text (validate E) (initialName E) (Enter [] # rest) =
          prompt_text (validate E) (initialName E) (Enter d # rest)"
    by (simp add: Let_def)
qed

theorem rejected_name_is_asked_again_witness:
  "askName demoEnv =
     ([''Error: name can only contain URL-friendly characters.''], Answered ''my-bot'')
   \<and> askName capitalsEnv =
     ([''Error: name can no longer contain capital letters.''], Answered ''my-bot'')
   \<and> prompt_text (validate demoEnv) (initialName demoEnv) [Enter ''.my bot'', Enter ''my-bot''] =
     ([''Error: name cannot start with a period, name can only contain URL-friendly characters.''],
      Answered ''my-bot'')
   \<and> validForNewPackages (validateName demoEnv ''my-bot'')
   \<and> main demoEnv demoWorld =
       catchAndPrint (scaffold demoEnv (Some ''my-bot'') (console_log (banner demoEnv) demoWorld))
   \<and> askName (demoEnv\<lparr>nameEvents := [Enter ''Bad Name'']\<rparr>) =
     ([''Error: name can only contain URL-friendly characters.''], Pending)
   \<and> main (demoEnv\<lparr>nameEvents := [Enter ''Bad Name'']\<rparr>) demoWorld =
       (NeverSettles, demoWorld\<lparr>stdout := [banner demoEnv]\<rparr>)
   \<and> prompt_text (validate demoEnv) (initialName demoEnv) [Enter []] =
       ([], Answered ''discord-bot'')"
proof -
  let ?E = demoEnv
  let ?C = capitalsEnv
  let ?url = "''name can only contain URL-friendly characters''"
  let ?cap = "''name can no longer contain capital letters''"
  let ?dot = "''name cannot start with a period''"
  have bad: "(if ''Bad Name'' = [] then initialName ?E else ''Bad Name'') = ''Bad Name''
      \<and> \<not> validForNewPackages (validateName ?E ''Bad Name'')
      \<and> (errors (validateName ?E ''Bad Name'') = Some [?url]
          \<or> errors (validateName ?E ''Bad Name'') = None
            \<and> warnings (validateName ?E ''Bad Name'') = Some [?url])"
    by (simp add: demoEnv_def)
  have cap: "(if ''MyBot'' = [] then initialName ?C else ''MyBot'') = ''MyBot''
      \<and> \<not> validForNewPackages (validateName ?C ''MyBot'')
      \<and> (errors (validateName ?C ''MyBot'') = Some [?cap]
          \<or> errors (validateName ?C ''MyBot'') = None
            \<and> warnings (validateName ?C ''MyBot'') = Some [?cap])"
    by (simp add: capitalsEnv_def demoEnv_def)
  have dot: "(if ''.my bot'' = [] then initialName ?E else ''.my bot'') = ''.my bot''
      \<and> \<not> validForNewPackages (validateName ?E ''.my bot'')
      \<and> (errors (validateName ?E ''.my bot'') = Some [?dot, ?url]
          \<or> errors (validateName ?E ''.my bot'') = None
            \<and> warnings (validateName ?E ''.my bot'') = Some [?dot, ?url])"
    by (simp add: demoEnv_def)
  have ev: "nameEvents ?E = [Enter ''Bad Name'', Enter ''my-bot'']"
    "nameEvents ?C = [Enter ''MyBot'', Enter ''my-bot'']"
    by (simp_all add: demoEnv_def capitalsEnv_def)
  have good: "prompt_text (validate ?E) (initialName ?E) [Enter ''my-bot'']
      = ([], Answered ''my-bot'')"
    "prompt_text (validate ?C) (initialName ?C) [Enter ''my-bot''] = ([], Answered ''my-bot'')"
    by (simp_all add: demoEnv_def capitalsEnv_def validate_def)
  have nm: "getProp (appPackage ?E) ''name'' = Some (JString ''discord-bot'')"
    by (simp add: demoEnv_def getProp_def)
  have dflt: "prompt_text (validate ?E) (initialName ?E) [Enter ''discord-bot'']
      = ([], Answered ''discord-bot'')"
    by (simp add: demoEnv_def validate_def)
  note t = rejected_name_is_asked_again[where rest="[Enter ''my-bot'']" and n="''my-bot''"
      and w=demoWorld]
  from t[where E="?E" and typed="''Bad Name''" and c="''Bad Name''" and ms="[?url]"] bad
  have s1: "prompt_text (validate ?E) (initialName ?E) (Enter ''Bad Name'' # [Enter ''my-bot'']) =
      ((''Error: '' @ join '', '' [?url] @ ''.'')
         # fst (prompt_text (validate ?E) (initialName ?E) [Enter ''my-bot'']),
       snd (prompt_text (validate ?E) (initialName ?E) [Enter ''my-bot'']))"
    by blast
  from t[where E="?C" and typed="''MyBot''" and c="''MyBot''" and ms="[?cap]"] cap
  have s2: "prompt_text (validate ?C) (initialName ?C) (Enter ''MyBot'' # [Enter ''my-bot'']) =
      ((''Error: '' @ join '', '' [?cap] @ ''.'')
         # fst (prompt_text (validate ?C) (initialName ?C) [Enter ''my-bot'']),
       snd (prompt_text (validate ?C) (initialName ?C) [Enter ''my-bot'']))"
    by blast
  from t[where E="?E" and typed="''.my bot''" and c="''.my bot''" and ms="[?dot, ?url]"] dot
  have s3: "prompt_text (validate ?E) (initialName ?E) (Enter ''.my bot'' # [Enter ''my-bot'']) =
      ((''Error: '' @ join '', '' [?dot, ?url] @ ''.'')
         # fst (prompt_text (validate ?E) (initialName ?E) [Enter ''my-bot'']),
       snd (prompt_text (validate ?E) (initialName ?E) [Enter ''my-bot'']))"
    by blast
  have a: "askName ?E = ([''Error: name can only contain URL-friendly characters.''],
      Answered ''my-bot'')"
    unfolding askName_def ev s1 good by simp
  have b: "askName ?C = ([''Error: name can no longer contain capital letters.''],
      Answered ''my-bot'')"
    unfolding askName_def ev s2 good by simp
  have c: "prompt_text (validate ?E) (initialName ?E) [Enter ''.my bot'', Enter ''my-bot''] =
     ([''Error: name cannot start with a period, name can only contain URL-friendly characters.''],
      Answered ''my-bot'')"
    unfolding s3 good by simp
  from a have s: "snd (askName ?E) = Answered ''my-bot''" by simp
  from t[where E="?E"] s have v: "validForNewPackages (validateName ?E ''my-bot'')" by blast
  from t[where E="?E"] s have m: "main ?E demoWorld =
      catchAndPrint (scaffold ?E (Some ''my-bot'') (console_log (banner ?E) demoWorld))"
    by blast
  from rejected_name_is_asked_again[where E="?E" and rest="[]" and d="''discord-bot''"] nm
  have "prompt_text (validate ?E) (initialName ?E) (Enter [] # []) =
      prompt_text (validate ?E) (initialName ?E) (Enter ''discord-bot'' # [])"
    by blast
  with dflt have d: "prompt_text (validate ?E) (initialName ?E) [Enter []] =
      ([], Answered ''discord-bot'')"
    by (simp only:)
  \<comment> \<open>the input ends after the rejected name\<close>
  let ?P = "demoEnv\<lparr>nameEvents := [Enter ''Bad Name'']\<rparr>"
  have vp: "validate ?P = validate ?E" "initialName ?P = initialName ?E"
    "banner ?P = banner ?E"
    by (simp_all add: fun_eq_iff validate_def initialName_def banner_def
        utilityNameAndVersion_def)
  from rejected_name_is_asked_again[where E="?E" and typed="''Bad Name''" and c="''Bad Name''"
      and ms="[?url]" and rest="[]"] bad
  have "prompt_text (validate ?E) (initialName ?E) (Enter ''Bad Name'' # []) =
      ((''Error: '' @ join '', '' [?url] @ ''.'')
         # fst (prompt_text (validate ?E) (initialName ?E) []),
       snd (prompt_text (validate ?E) (initialName ?E) []))"
    by blast
  then have p: "askName ?P = ([''Error: name can only contain URL-friendly characters.''], Pending)"
    unfolding askName_def vp by simp
  then have "snd (askName ?P) = Pending" by simp
  with rejected_name_is_asked_again[where E="?P" and w=demoWorld]
  have "main ?P demoWorld = (NeverSettles, console_log (banner ?P) demoWorld)"
    by blast
  then have q: "main ?P demoWorld = (NeverSettles, demoWorld\<lparr>stdout := [banner demoEnv]\<rparr>)"
    unfolding vp by (simp add: console_log_def demoWorld_def)
  from a b c v m d p q show ?thesis by blast
qed

subsection \<open>Declined updates and the exit status\<close>

lemma scaffold_declined:
  assumes "existsSync (files v) (path_resolve E (cwd v) name)"
    and "updateAnswer E \<noteq> Some True"
  shows "scaffold E (Some name) v = (Rejected (Thrown ''Quitting...''), console_log [] v)"
  using assms by (simp add: scaffold_def)

lemma main_declined:
  assumes "snd (askName E) = Answered name"
    and "existsSync (files w) (path_resolve E (cwd w) name)"
    and "updateAnswer E \<noteq> Some True"
  shows "main E w =
     (ExitCode 0, w\<lparr>stdout := stdout w @ [banner E, []],
                    stderr := stderr w @ [Thrown ''Quitting...'']\<rparr>)"
proof -
  let ?w1 = "console_log (banner E) w"
  have "existsSync (files ?w1) (path_resolve E (cwd ?w1) name)"
    using assms(2) by (simp add: console_log_def)
  from scaffold_declined[OF this assms(3)] assms(1) show ?thesis
    by (simp add: main_def answered_def catchAndPrint_def console_log_def console_error_def)
qed

text \<open>
  Claim C2. When the target path exists and the answer to the confirmation is anything
  but yes (no, or no answer at all), the run changes no file and no directory: the file
  system after the run is the file system before it, entry for entry. Nor does it
  change the working directory or run a command; it prints the banner and an empty
  line, and the value thrown goes to the error stream.
\<close>

theorem declined_update_mutates_nothing:
  "snd (askName E) = Answered name \<and> existsSync (files w) (path_resolve E (cwd w) name)
     \<and> updateAnswer E \<noteq> Some True
   \<longrightarrow> files (snd (main E w)) = files w
       \<and> cwd (snd (main E w)) = cwd w
       \<and> execs (snd (main E w)) = execs w
       \<and> main E w =
           (ExitCode 0, w\<lparr>stdout := stdout w @ [banner E, []],
                          stderr := stderr w @ [Thrown ''Quitting...'']\<rparr>)"
proof
  assume "snd (askName E) = Answered name \<and> existsSync (files w) (path_resolve E (cwd w) name)
     \<and> updateAnswer E \<noteq> Some True"
  then have "main E w =
     (ExitCode 0, w\<lparr>stdout := stdout w @ [banner E, []],
                    stderr := stderr w @ [Thrown ''Quitting...'']\<rparr>)"
    by (simp add: main_declined)
  then show "files (snd (main E w)) = files w
       \<and> cwd (snd (main E w)) = cwd w
       \<and> execs (snd (main E w)) = execs w
       \<and> main E w =
           (ExitCode 0, w\<lparr>stdout := stdout w @ [banner E, []],
                          stderr := stderr w @ [Thrown ''Quitting...'']\<rparr>)"
    by simp
qed

theorem declined_update_mutates_nothing_witness:
  "files (snd (main demoEnv updatedWorld)) = files updatedWorld
   \<and> files (snd (main (demoEnv\<lparr>updateAnswer := Some False\<rparr>) updatedWorld)) = files updatedWorld
   \<and> stderr (snd (main (demoEnv\<lparr>updateAnswer := Some False\<rparr>) updatedWorld))
       = [Thrown ''Quitting...'']"
proof -
  let ?E = "demoEnv\<lparr>updateAnswer := Some False\<rparr>"
  have n: "snd (askName ?E) = Answered ''my-bot''"
    using demo_answer askName_cong[of ?E demoEnv] by simp
  have x: "existsSync (files updatedWorld) (path_resolve ?E (cwd updatedWorld) ''my-bot'')"
    using demo_target_exists by simp
  have u: "updateAnswer demoEnv \<noteq> Some True" "updateAnswer ?E \<noteq> Some True"
    by (simp_all add: demoEnv_def)
  have a: "files (snd (main demoEnv updatedWorld)) = files updatedWorld"
    using declined_update_mutates_nothing[of demoEnv "''my-bot''" updatedWorld]
      demo_answer demo_target_exists u(1) by blast
  have b: "main ?E updatedWorld =
      (ExitCode 0, updatedWorld\<lparr>stdout := stdout updatedWorld @ [banner ?E, []],
                    stderr := stderr updatedWorld @ [Thrown ''Quitting...'']\<rparr>)"
    using declined_update_mutates_nothing[of ?E "''my-bot''" updatedWorld] n x u(2) by blast
  have "stderr updatedWorld = []"
    by (simp add: updatedWorld_def demoWorld_def)
  with a b show ?thesis by simp
qed

text \<open>
  Claim C1 says that a run ending in an abort or in a step failure terminates with a
  non-zero exit status. The rejection is handled by \<^verbatim>\<open>.catch(console.error)\<close>
  and nothing sets an exit code: the run that declines the update and the run whose
  installer exits with status 1 both end with status 0.
\<close>

theorem abort_and_failure_exit_zero:
  "fst (scaffold demoEnv (Some ''my-bot'') (console_log (banner demoEnv) updatedWorld))
     = Rejected (Thrown ''Quitting...'')
   \<and> fst (main demoEnv updatedWorld) = ExitCode 0
   \<and> fst (scaffold failingInstallEnv (Some ''my-bot'')
          (console_log (banner failingInstallEnv) demoWorld))
       = Rejected (ExecError ''npm ci'' 1)
   \<and> fst (main failingInstallEnv demoWorld) = ExitCode 0"
  by code_simp

lemma scaffold_exit_zero: "scaffold E a v = (ProcessExit n, v') \<Longrightarrow> n = 0"
  by (auto simp: scaffold_def execute_def Let_def
      split: option.splits if_splits prod.splits)

lemma scaffold_step_failure:
  assumes "runSteps (isDryRun (argv E)) steps (console_log [] v) = (Some e, v')"
  shows "execute E name steps v = (Rejected e, v')"
  using assms by (simp add: execute_def)

text \<open>
  Claim C1, amended. Every run that gets a name terminates with exit status 0. A run
  that ends in an abort (the update is declined) or in a step failure (an action
  throws, including a non-zero installer exit) rejects the handler's promise; the
  top-level handler prints the thrown value to the error stream and the process ends
  with status 0. A fully successful run calls \<^verbatim>\<open>process.exit(0)\<close>.
\<close>

theorem every_run_exits_zero:
  "(snd (askName E) = Answered name \<longrightarrow> fst (main E w) = ExitCode 0)
   \<and> (snd (askName E) = Answered name
        \<and> scaffold E (Some name) (console_log (banner E) w) = (Rejected e, w')
      \<longrightarrow> main E w = (ExitCode 0, w'\<lparr>stderr := stderr w' @ [e]\<rparr>))
   \<and> (snd (askName E) = Answered name
        \<and> scaffold E (Some name) (console_log (banner E) w) = (ProcessExit n, w')
      \<longrightarrow> n = 0 \<and> main E w = (ExitCode 0, w'))
   \<and> (existsSync (files v) (path_resolve E (cwd v) name) \<and> updateAnswer E \<noteq> Some True
      \<longrightarrow> scaffold E (Some name) v = (Rejected (Thrown ''Quitting...''), console_log [] v))
   \<and> (runSteps (isDryRun (argv E)) steps (console_log [] v) = (Some err, v')
      \<longrightarrow> execute E name steps v = (Rejected err, v'))"
proof (intro conjI impI)
  assume a: "snd (askName E) = Answered name"
  obtain r w2 where s: "scaffold E (Some name) (console_log (banner E) w) = (r, w2)"
    by (cases "scaffold E (Some name) (console_log (banner E) w)")
  show "fst (main E w) = ExitCode 0"
  proof (cases r)
    case (ProcessExit k)
    with s have "k = 0" by (simp add: scaffold_exit_zero)
    with a s ProcessExit show ?thesis
      by (simp add: main_def answered_def catchAndPrint_def)
  next
    case (Rejected x)
    with a s show ?thesis
      by (simp add: main_def answered_def catchAndPrint_def)
  qed
next
  assume "snd (askName E) = Answered name
        \<and> scaffold E (Some name) (console_log (banner E) w) = (Rejected e, w')"
  then show "main E w = (ExitCode 0, w'\<lparr>stderr := stderr w' @ [e]\<rparr>)"
    by (simp add: main_def answered_def catchAndPrint_def console_error_def)
next
  assume h: "snd (askName E) = Answered name
        \<and> scaffold E (Some name) (console_log (banner E) w) = (ProcessExit n, w')"
  then show "n = 0" using scaffold_exit_zero by blast
  with h show "main E w = (ExitCode 0, w')"
    by (simp add: main_def answered_def catchAndPrint_def)
next
  assume "existsSync (files v) (path_resolve E (cwd v) name) \<and> updateAnswer E \<noteq> Some True"
  then show "scaffold E (Some name) v = (Rejected (Thrown ''Quitting...''), console_log [] v)"
    by (simp add: scaffold_declined)
next
  assume "runSteps (isDryRun (argv E)) steps (console_log [] v) = (Some err, v')"
  then show "execute E name steps v = (Rejected err, v')"
    by (rule scaffold_step_failure)
qed

theorem every_run_exits_zero_witness:
  "fst (main demoEnv demoWorld) = ExitCode 0
   \<and> main demoEnv updatedWorld =
       (ExitCode 0, updatedWorld\<lparr>stdout := [banner demoEnv, []],
                                 stderr := [Thrown ''Quitting...'']\<rparr>)
   \<and> fst (main failingInstallEnv demoWorld) = ExitCode 0
   \<and> stderr (snd (main failingInstallEnv demoWorld)) = [ExecError ''npm ci'' 1]
   \<and> snd (main demoEnv demoWorld) = snd (scaffold demoEnv (Some ''my-bot'')
        (console_log (banner demoEnv) demoWorld))"
proof -
  let ?F = failingInstallEnv
  let ?wu = "console_log (banner demoEnv) updatedWorld"
  let ?wf = "console_log (banner ?F) demoWorld"
  let ?wd = "console_log (banner demoEnv) demoWorld"
  let ?cs = "createSteps ?F ''my-bot'' [''home'', ''my-bot''] (Some ''abc'')"
  have nF: "snd (askName ?F) = Answered ''my-bot''"
    using demo_answer askName_cong[of ?F demoEnv] by (simp add: failingInstallEnv_def)
  have u: "updateAnswer demoEnv \<noteq> Some True" by (simp add: demoEnv_def)
  have xu: "existsSync (files ?wu) (path_resolve demoEnv (cwd ?wu) ''my-bot'')"
    using demo_target_exists by (simp add: console_log_def)
  \<comment> \<open>the abort\<close>
  from every_run_exits_zero[where E=demoEnv and name="''my-bot''" and v="?wu"] xu u
  have ab: "scaffold demoEnv (Some ''my-bot'') ?wu = (Rejected (Thrown ''Quitting...''), console_log [] ?wu)"
    by blast
  from every_run_exits_zero[where E=demoEnv and name="''my-bot''" and w=updatedWorld
      and e="Thrown ''Quitting...''" and w'="console_log [] ?wu"] demo_answer ab
  have "main demoEnv updatedWorld =
      (ExitCode 0, (console_log [] ?wu)\<lparr>stderr := stderr (console_log [] ?wu) @ [Thrown ''Quitting...'']\<rparr>)"
    by blast
  then have r1: "main demoEnv updatedWorld =
       (ExitCode 0, updatedWorld\<lparr>stdout := [banner demoEnv, []],
                                 stderr := [Thrown ''Quitting...'']\<rparr>)"
    by (simp add: console_log_def updatedWorld_def demoWorld_def)
  \<comment> \<open>the failing step\<close>
  have "fst (runSteps (isDryRun (argv ?F)) ?cs (console_log [] ?wf)) = Some (ExecError ''npm ci'' 1)"
    by code_simp
  then have run: "runSteps (isDryRun (argv ?F)) ?cs (console_log [] ?wf) =
      (Some (ExecError ''npm ci'' 1), snd (runSteps (isDryRun (argv ?F)) ?cs (console_log [] ?wf)))"
    by (simp add: prod_eq_iff)
  from every_run_exits_zero[where E="?F" and v="?wf" and name="''my-bot''" and steps="?cs"
      and err="ExecError ''npm ci'' 1"] run
  have ex: "execute ?F ''my-bot'' ?cs ?wf =
      (Rejected (ExecError ''npm ci'' 1), snd (runSteps (isDryRun (argv ?F)) ?cs (console_log [] ?wf)))"
    by blast
  have sc: "scaffold ?F (Some ''my-bot'') ?wf = execute ?F ''my-bot'' ?cs ?wf"
    by (simp add: scaffold_def existsSync_def lookup_def failingInstallEnv_def demoEnv_def
        demoWorld_def console_log_def askToken_def)
  have "stderr (snd (runSteps (isDryRun (argv ?F)) ?cs (console_log [] ?wf))) = []"
    by code_simp
  with every_run_exits_zero[where E="?F" and name="''my-bot''" and w=demoWorld
      and e="ExecError ''npm ci'' 1"
      and w'="snd (runSteps (isDryRun (argv ?F)) ?cs (console_log [] ?wf))"] nF sc ex
  have r2: "fst (main ?F demoWorld) = ExitCode 0"
    and r3: "stderr (snd (main ?F demoWorld)) = [ExecError ''npm ci'' 1]"
    by simp_all
  \<comment> \<open>the successful run\<close>
  have "fst (scaffold demoEnv (Some ''my-bot'') ?wd) = ProcessExit 0"
    by code_simp
  then have ok: "scaffold demoEnv (Some ''my-bot'') ?wd =
      (ProcessExit 0, snd (scaffold demoEnv (Some ''my-bot'') ?wd))"
    by (simp add: prod_eq_iff)
  from every_run_exits_zero[where E=demoEnv and name="''my-bot''" and w=demoWorld
      and w'="snd (scaffold demoEnv (Some ''my-bot'') ?wd)" and n=0]
    demo_answer ok
  have r4: "main demoEnv demoWorld = (ExitCode 0, snd (scaffold demoEnv (Some ''my-bot'') ?wd))"
    by blast
  from r1 r2 r3 r4 show ?thesis by simp
qed

subsection \<open>The manifest\<close>












lemma lookup_Cons:
  "p \<noteq> [] \<Longrightarrow> lookup ((p, n) # fs) q = (if q = p then Some n else lookup fs q)"
  by (auto simp: lookup_def)







subsection \<open>The create plan\<close>

lemma andThen_ok:
  "andThen a b w = (None, w') \<Longrightarrow> \<exists>w1. a w = (None, w1) \<and> b w1 = (None, w')"
  by (auto simp: andThen_def split: prod.splits option.splits)

lemma onFiles_ok:
  "onFiles f w = (None, w') \<Longrightarrow> f (files w) = (None, files w') \<and> w' = w\<lparr>files := files w'\<rparr>"
  by (auto simp: onFiles_def split: prod.splits)















subsection \<open>The update plan\<close>

lemma keys_Cons: "keys ((p, n) # fs) = insert p (keys fs)"
  by (simp add: keys_def)

lemma lookup_None_iff: "q \<noteq> [] \<Longrightarrow> (lookup fs q = None) = (q \<notin> keys fs)"
  by (simp add: lookup_def keys_def map_of_eq_None_iff)

lemma lookup_None_nonroot: "lookup fs q = None \<Longrightarrow> q \<noteq> []"
  by (auto simp: lookup_def)

lemma lookup_File_nonroot: "lookup fs q = Some (File c) \<Longrightarrow> q \<noteq> []"
  by (auto simp: lookup_def)

lemma mkdirs_all:
  "mkdirs deny qs fs = (None, fs') \<Longrightarrow>
     (\<forall>q. lookup fs' q = (if q \<in> set qs \<and> lookup fs q = None then Some Dir else lookup fs q))
     \<and> (\<forall>q\<in>set qs. lookup fs' q = Some Dir)
     \<and> keys fs \<subseteq> keys fs' \<and> keys fs' \<subseteq> keys fs \<union> set qs"
proof (induction qs arbitrary: fs)
  case Nil
  then show ?case by simp
next
  case (Cons a qs)
  show ?case
  proof (cases "lookup fs a")
    case None
    with Cons.prems have r: "mkdirs deny qs ((a, Dir) # fs) = (None, fs')"
      by (auto split: if_splits)
    from None have a: "a \<noteq> []" by (rule lookup_None_nonroot)
    from Cons.IH[OF r] None a show ?thesis
      by (auto simp: lookup_Cons keys_Cons)
  next
    case (Some n)
    with Cons.prems have n: "n = Dir" and r: "mkdirs deny qs fs = (None, fs')"
      by (auto split: node.splits)
    from Cons.IH[OF r] Some n show ?thesis
      by auto
  qed
qed

lemma mkdirs_ok:
  assumes "mkdirs deny qs fs = (None, fs')"
  shows "lookup fs' q = (if q \<in> set qs \<and> lookup fs q = None then Some Dir else lookup fs q)"
    and "q \<in> set qs \<Longrightarrow> lookup fs' q = Some Dir"
    and "keys fs \<subseteq> keys fs'" and "keys fs' \<subseteq> keys fs \<union> set qs"
  using mkdirs_all[OF assms] by blast+

lemma mkdirs_noop:
  "\<forall>q\<in>set qs. lookup fs q = Some Dir \<Longrightarrow> mkdirs deny qs fs = (None, fs)"
  by (induction qs) auto

lemma copyItem_ok:
  assumes "copyItem deny s d fs = (None, fs')"
  shows "lookup fs s \<noteq> None"
    and "lookup fs' q = (if q = d then lookup fs s else lookup fs q)"
    and "keys fs \<subseteq> keys fs'" and "keys fs' \<subseteq> insert d (keys fs)"
    and "lookup fs s = Some Dir \<or> \<not> deny d"
  using assms
  by (auto simp: copyItem_def lookup_Cons keys_Cons
      dest: lookup_None_nonroot lookup_File_nonroot
      split: option.splits node.splits if_splits)

lemma copyItem_noop:
  assumes "lookup fs s \<noteq> None" and "lookup fs d = lookup fs s"
    and "lookup fs s = Some Dir \<or> \<not> deny d"
  shows "\<exists>fs'. copyItem deny s d fs = (None, fs') \<and> (\<forall>q. lookup fs' q = lookup fs q)
           \<and> keys fs \<subseteq> keys fs' \<and> keys fs' \<subseteq> insert d (keys fs)"
proof (cases "lookup fs s")
  case None
  with assms(1) show ?thesis by simp
next
  case (Some n)
  show ?thesis
  proof (cases n)
    case Dir
    with Some assms show ?thesis by (auto simp: copyItem_def)
  next
    case (File c)
    with Some assms have d: "lookup fs d = Some (File c)" and nd: "\<not> deny d" by simp_all
    from d have "d \<noteq> []" by (auto simp: lookup_def)
    with Some File d nd show ?thesis
      by (auto simp: copyItem_def lookup_Cons keys_Cons)
  qed
qed


lemma copyItems_all:
  assumes noclash: "\<forall>r r'. dst @ r \<noteq> src @ r'"
  shows "copyItems deny src dst rs fs = (None, fs') \<Longrightarrow>
     (\<forall>q. lookup fs' q =
        (if q \<in> (\<lambda>r. dst @ r) ` set rs then lookup fs (src @ drop (length dst) q)
         else lookup fs q))
     \<and> (\<forall>r\<in>set rs. lookup fs (src @ r) \<noteq> None
           \<and> (lookup fs (src @ r) = Some Dir \<or> \<not> deny (dst @ r)))
     \<and> keys fs \<subseteq> keys fs' \<and> keys fs' \<subseteq> keys fs \<union> (\<lambda>r. dst @ r) ` set rs"
proof (induction rs arbitrary: fs)
  case Nil
  then show ?case by simp
next
  case (Cons r rs)
  from Cons.prems obtain fs1 where one: "copyItem deny (src @ r) (dst @ r) fs = (None, fs1)"
    and rest: "copyItems deny src dst rs fs1 = (None, fs')"
    by (auto split: prod.splits option.splits)
  note o = copyItem_ok[OF one]
  have src_same: "\<And>x. lookup fs1 (src @ x) = lookup fs (src @ x)"
    using o(2) noclash by (metis (full_types))
  note ih = Cons.IH[OF rest]
  have a: "\<forall>q. lookup fs' q =
        (if q \<in> (\<lambda>r. dst @ r) ` set (r # rs) then lookup fs (src @ drop (length dst) q)
         else lookup fs q)"
  proof
    fix q
    show "lookup fs' q =
        (if q \<in> (\<lambda>r. dst @ r) ` set (r # rs) then lookup fs (src @ drop (length dst) q)
         else lookup fs q)"
    proof (cases "q \<in> (\<lambda>r. dst @ r) ` set rs")
      case True
      with ih have "lookup fs' q = lookup fs1 (src @ drop (length dst) q)" by simp
      with True show ?thesis by (simp add: src_same)
    next
      case False
      with ih have "lookup fs' q = lookup fs1 q" by simp
      with False o(2)[of q] show ?thesis by auto
    qed
  qed
  have b: "\<forall>x\<in>set (r # rs). lookup fs (src @ x) \<noteq> None
           \<and> (lookup fs (src @ x) = Some Dir \<or> \<not> deny (dst @ x))"
    using ih o(1,5) by (simp add: src_same)
  have c: "keys fs \<subseteq> keys fs'" "keys fs' \<subseteq> keys fs \<union> (\<lambda>r. dst @ r) ` set (r # rs)"
    using ih o(3,4) by auto
  from a b c show ?case by blast
qed

lemma copyItems_noop:
  "\<forall>r\<in>set rs. lookup fs (src @ r) \<noteq> None \<and> lookup fs (dst @ r) = lookup fs (src @ r)
       \<and> (lookup fs (src @ r) = Some Dir \<or> \<not> deny (dst @ r)) \<Longrightarrow>
   \<exists>fs'. copyItems deny src dst rs fs = (None, fs') \<and> (\<forall>q. lookup fs' q = lookup fs q)
      \<and> keys fs \<subseteq> keys fs' \<and> keys fs' \<subseteq> keys fs \<union> (\<lambda>r. dst @ r) ` set rs"
proof (induction rs arbitrary: fs)
  case Nil
  then show ?case by simp
next
  case (Cons r rs)
  from Cons.prems have "lookup fs (src @ r) \<noteq> None" "lookup fs (dst @ r) = lookup fs (src @ r)"
    "lookup fs (src @ r) = Some Dir \<or> \<not> deny (dst @ r)"
    by simp_all
  from copyItem_noop[where fs=fs and s="src @ r" and d="dst @ r" and deny=deny] this
  obtain fs1 where
    one: "copyItem deny (src @ r) (dst @ r) fs = (None, fs1)"
    and same: "\<forall>q. lookup fs1 q = lookup fs q"
    and k1: "keys fs \<subseteq> keys fs1" "keys fs1 \<subseteq> insert (dst @ r) (keys fs)"
    by blast
  from Cons.prems same have "\<forall>x\<in>set rs. lookup fs1 (src @ x) \<noteq> None
       \<and> lookup fs1 (dst @ x) = lookup fs1 (src @ x)
       \<and> (lookup fs1 (src @ x) = Some Dir \<or> \<not> deny (dst @ x))"
    by simp
  from Cons.IH[OF this] obtain fs' where
    rest: "copyItems deny src dst rs fs1 = (None, fs')"
    and same': "\<forall>q. lookup fs' q = lookup fs1 q"
    and k2: "keys fs1 \<subseteq> keys fs'" "keys fs' \<subseteq> keys fs1 \<union> (\<lambda>r. dst @ r) ` set rs"
    by blast
  from one rest have "copyItems deny src dst (r # rs) fs = (None, fs')" by simp
  moreover from same same' have "\<forall>q. lookup fs' q = lookup fs q" by simp
  moreover from k1 k2 have "keys fs \<subseteq> keys fs'"
    "keys fs' \<subseteq> keys fs \<union> (\<lambda>r. dst @ r) ` set (r # rs)"
    by auto
  ultimately show ?case by blast
qed

lemma in_below: "r \<in> set (below src fs) \<longleftrightarrow> r \<noteq> [] \<and> src @ r \<in> keys fs"
proof
  assume "r \<in> set (below src fs)"
  then obtain e where e: "e \<in> set fs" "prefix src (fst e)" "r = drop (length src) (fst e)" "r \<noteq> []"
    by (auto simp: below_def)
  from e(2,3) have "src @ r = fst e" by (auto simp: prefix_def)
  with e(1,4) show "r \<noteq> [] \<and> src @ r \<in> keys fs" by (auto simp: keys_def)
next
  assume "r \<noteq> [] \<and> src @ r \<in> keys fs"
  then obtain e where "e \<in> set fs" "fst e = src @ r" "r \<noteq> []" by (auto simp: keys_def)
  then have "e \<in> set (filter (\<lambda>e. prefix src (fst e)) fs)" "drop (length src) (fst e) = r"
    by simp_all
  then have "r \<in> set (map (\<lambda>e. drop (length src) (fst e)) (filter (\<lambda>e. prefix src (fst e)) fs))"
    by (metis (no_types, lifting) image_eqI list.set_map)
  with \<open>r \<noteq> []\<close> show "r \<in> set (below src fs)"
    by (simp add: below_def)
qed

lemma in_items:
  "r \<in> set (items src fs) \<longleftrightarrow> r = [] \<or> (lookup fs src = Some Dir \<and> src @ r \<in> keys fs)"
  by (auto simp: items_def in_below split: option.splits node.splits)

lemma entry_in_items:
  assumes "lookup fs (src @ r) \<noteq> None" and "r = [] \<or> lookup fs src = Some Dir"
  shows "r \<in> set (items src fs)"
proof (cases "r = []")
  case True
  then show ?thesis by (simp add: in_items)
next
  case False
  with assms(2) have "lookup fs src = Some Dir" by simp
  moreover from assms(1) False have "src @ r \<in> keys fs"
    using lookup_None_iff[of "src @ r" fs] by simp
  ultimately show ?thesis by (simp add: in_items)
qed

lemma items_cong:
  assumes "lookup fs' src = lookup fs src"
    and "\<forall>k. prefix src k \<longrightarrow> (k \<in> keys fs' \<longleftrightarrow> k \<in> keys fs)"
  shows "set (items src fs') = set (items src fs)"
  using assms by (auto simp: in_items)

lemma apart_sym: "apart a b \<Longrightarrow> apart b a"
  by (simp add: apart_def)

lemma apart_append: "apart a b \<Longrightarrow> apart (a @ x) (b @ y)"
  unfolding apart_def
  by (meson append_prefixD prefixI prefix_same_cases)

lemma apart_noclash: "apart src dst \<Longrightarrow> dst @ r \<noteq> src @ r'"
  unfolding apart_def by (metis prefixI prefix_same_cases)

lemma apart_not_in_image:
  assumes "apart src dst"
  shows "src @ x \<notin> (\<lambda>r. dst @ r) ` R"
proof
  assume "src @ x \<in> (\<lambda>r. dst @ r) ` R"
  then obtain r where "src @ x = dst @ r" by (rule imageE)
  then have "dst @ r = src @ x" by (rule sym)
  with apart_noclash[OF assms] show False by blast
qed

lemma apart_under: "apart a b \<Longrightarrow> prefix a k \<Longrightarrow> prefix b k \<Longrightarrow> False"
  unfolding apart_def by (metis prefix_same_cases)

lemma apart_above: "apart a b \<Longrightarrow> prefix a k \<Longrightarrow> prefix k (butlast b) \<Longrightarrow> False"
  unfolding apart_def
  by (metis prefix_order.dual_order.trans prefixeq_butlast)


lemma copySync_unfold:
  assumes "copySync deny src dst fs = (None, fs')"
  obtains fs1 where "lookup fs src \<noteq> None" and "src \<noteq> dst"
    and "mkdirs deny (prefixes (butlast dst)) fs = (None, fs1)"
    and "copyItems deny src dst (items src fs1) fs1 = (None, fs')"
  using assms
  by (auto simp: copySync_def split: option.splits if_splits prod.splits)

lemma apart_not_image: "apart src dst \<Longrightarrow> prefix (dst @ r) (butlast dst) \<Longrightarrow> False"
proof -
  assume a: "apart src dst" and p: "prefix (dst @ r) (butlast dst)"
  from a have "dst \<noteq> []" by (auto simp: apart_def)
  then have "0 < length dst" by simp
  moreover from p have "length (dst @ r) \<le> length (butlast dst)" by (rule prefix_length_le)
  then have "length dst + length r \<le> length dst - 1"
    by (simp only: length_append length_butlast)
  ultimately show False by arith
qed

lemma copySync_ok:
  assumes ap: "apart src dst" and run: "copySync deny src dst fs = (None, fs')"
  shows "lookup fs' q =
      (if q \<in> (\<lambda>r. dst @ r) ` set (items src fs) then lookup fs (src @ drop (length dst) q)
       else if prefix q (butlast dst) \<and> lookup fs q = None then Some Dir
       else lookup fs q)"
    and "keys fs \<subseteq> keys fs'"
    and "keys fs' \<subseteq> keys fs \<union> (\<lambda>r. dst @ r) ` set (items src fs) \<union> {k. prefix k (butlast dst)}"
    and "synced deny src dst fs'"
proof -
  from run obtain fs1 where src: "lookup fs src \<noteq> None"
    and mk: "mkdirs deny (prefixes (butlast dst)) fs = (None, fs1)"
    and cp: "copyItems deny src dst (items src fs1) fs1 = (None, fs')"
    by (rule copySync_unfold)
  note m = mkdirs_ok[OF mk]
  have m1: "\<And>x. lookup fs1 x =
      (if prefix x (butlast dst) \<and> lookup fs x = None then Some Dir else lookup fs x)"
    using m(1) by simp
  have src_tree: "\<And>x. lookup fs1 (src @ x) = lookup fs (src @ x)"
    using m1 apart_above[OF ap, of "src @ x" for x] by auto
  have keys1: "\<forall>k. prefix src k \<longrightarrow> (k \<in> keys fs1 \<longleftrightarrow> k \<in> keys fs)"
  proof (intro allI impI)
    fix k assume p: "prefix src k"
    show "k \<in> keys fs1 \<longleftrightarrow> k \<in> keys fs"
    proof
      assume "k \<in> keys fs1"
      with m(4) have "k \<in> keys fs \<or> prefix k (butlast dst)" by auto
      with apart_above[OF ap p] show "k \<in> keys fs" by blast
    next
      assume "k \<in> keys fs"
      with m(3) show "k \<in> keys fs1" by blast
    qed
  qed
  have it1: "set (items src fs1) = set (items src fs)"
    using items_cong[OF _ keys1] src_tree[of "[]"] by simp
  have noclash: "\<forall>r r'. dst @ r \<noteq> src @ r'"
    using apart_noclash[OF ap] by blast
  note c = copyItems_all[OF noclash cp]
  have c1: "\<And>x. lookup fs' x =
        (if x \<in> (\<lambda>r. dst @ r) ` set (items src fs) then lookup fs1 (src @ drop (length dst) x)
         else lookup fs1 x)"
    using c it1 by simp
  show "lookup fs' q =
      (if q \<in> (\<lambda>r. dst @ r) ` set (items src fs) then lookup fs (src @ drop (length dst) q)
       else if prefix q (butlast dst) \<and> lookup fs q = None then Some Dir
       else lookup fs q)"
    using c1[of q] src_tree m1[of q] by simp
  show k1: "keys fs \<subseteq> keys fs'"
    using m(3) c by blast
  show "keys fs' \<subseteq> keys fs \<union> (\<lambda>r. dst @ r) ` set (items src fs) \<union> {k. prefix k (butlast dst)}"
    using m(4) c it1 by auto
  show "synced deny src dst fs'"
  proof -
    have not_img: "\<And>x. src @ x \<notin> (\<lambda>r. dst @ r) ` set (items src fs)"
      by (rule apart_not_in_image[OF ap])
    have tree': "\<And>x. lookup fs' (src @ x) = lookup fs (src @ x)"
      using c1 not_img src_tree by simp
    have a: "lookup fs' src \<noteq> None"
      using tree'[of "[]"] src by simp
    have b: "\<forall>x\<in>set (prefixes (butlast dst)). lookup fs' x = Some Dir"
    proof
      fix x assume x: "x \<in> set (prefixes (butlast dst))"
      then have "prefix x (butlast dst)" by simp
      then have "x \<notin> (\<lambda>r. dst @ r) ` set (items src fs)"
        using apart_not_image[OF ap] by auto
      with c1[of x] m(2)[OF x] show "lookup fs' x = Some Dir" by simp
    qed
    have keys': "\<forall>k. prefix src k \<longrightarrow> (k \<in> keys fs' \<longleftrightarrow> k \<in> keys fs)"
    proof (intro allI impI)
      fix k assume p: "prefix src k"
      show "k \<in> keys fs' \<longleftrightarrow> k \<in> keys fs"
      proof
        assume "k \<in> keys fs'"
        with c have "k \<in> keys fs1 \<or> k \<in> (\<lambda>r. dst @ r) ` set (items src fs1)" by blast
        then show "k \<in> keys fs"
        proof
          assume "k \<in> keys fs1"
          with keys1 p show ?thesis by simp
        next
          assume "k \<in> (\<lambda>r. dst @ r) ` set (items src fs1)"
          then have "prefix dst k" by auto
          with apart_under[OF ap p] show ?thesis by simp
        qed
      next
        assume "k \<in> keys fs"
        with k1 show "k \<in> keys fs'" by blast
      qed
    qed
    have it': "set (items src fs') = set (items src fs)"
      using items_cong[OF _ keys'] tree'[of "[]"] by simp
    have d: "\<forall>r\<in>set (items src fs'). lookup fs' (src @ r) \<noteq> None
        \<and> lookup fs' (dst @ r) = lookup fs' (src @ r)
        \<and> (lookup fs' (src @ r) = Some Dir \<or> \<not> deny (dst @ r))"
    proof
      fix r assume "r \<in> set (items src fs')"
      with it' it1 have r: "r \<in> set (items src fs)" "r \<in> set (items src fs1)" by simp_all
      from c r(2) have s: "lookup fs1 (src @ r) \<noteq> None"
        "lookup fs1 (src @ r) = Some Dir \<or> \<not> deny (dst @ r)"
        by blast+
      from r(1) c1[of "dst @ r"] have "lookup fs' (dst @ r) = lookup fs1 (src @ r)"
        by simp
      with s show "lookup fs' (src @ r) \<noteq> None
        \<and> lookup fs' (dst @ r) = lookup fs' (src @ r)
        \<and> (lookup fs' (src @ r) = Some Dir \<or> \<not> deny (dst @ r))"
        by (simp add: tree' src_tree)
    qed
    from a b d show ?thesis
      by (simp add: synced_def list_all_iff)
  qed
qed

lemma copySync_noop:
  assumes ap: "apart src dst" and sy: "synced deny src dst fs"
  shows "\<exists>fs'. copySync deny src dst fs = (None, fs') \<and> (\<forall>q. lookup fs' q = lookup fs q)
     \<and> keys fs \<subseteq> keys fs' \<and> keys fs' \<subseteq> keys fs \<union> (\<lambda>r. dst @ r) ` set (items src fs)"
proof -
  from sy obtain n where n: "lookup fs src = Some n" by (auto simp: synced_def)
  from ap have ne: "src \<noteq> dst" "\<not> prefix src dst" by (auto simp: apart_def)
  have "[] \<in> set (items src fs)" by (simp add: in_items)
  with sy have "lookup fs (dst @ []) = lookup fs (src @ [])"
    unfolding synced_def list_all_iff by blast
  with n have ends: "lookup fs dst = Some n" by simp
  from sy have "\<forall>q\<in>set (prefixes (butlast dst)). lookup fs q = Some Dir"
    by (simp add: synced_def list_all_iff)
  then have mk: "mkdirs deny (prefixes (butlast dst)) fs = (None, fs)"
    by (rule mkdirs_noop)
  from sy have "\<forall>r\<in>set (items src fs). lookup fs (src @ r) \<noteq> None
       \<and> lookup fs (dst @ r) = lookup fs (src @ r)
       \<and> (lookup fs (src @ r) = Some Dir \<or> \<not> deny (dst @ r))"
    by (simp add: synced_def list_all_iff)
  from copyItems_noop[OF this] obtain fs' where
    "copyItems deny src dst (items src fs) fs = (None, fs')"
    "\<forall>q. lookup fs' q = lookup fs q" "keys fs \<subseteq> keys fs'"
    "keys fs' \<subseteq> keys fs \<union> (\<lambda>r. dst @ r) ` set (items src fs)"
    by blast
  with n ne mk ends show ?thesis
    by (simp add: copySync_def)
qed

lemma synced_preserved:
  assumes sy: "synced deny src dst fs"
    and same: "\<forall>q. prefix src q \<or> prefix dst q \<or> prefix q (butlast dst)
        \<longrightarrow> lookup fs' q = lookup fs q"
    and ks: "\<forall>k. prefix src k \<longrightarrow> (k \<in> keys fs' \<longleftrightarrow> k \<in> keys fs)"
  shows "synced deny src dst fs'"
proof -
  have s: "\<And>x. lookup fs' (src @ x) = lookup fs (src @ x)"
    and d: "\<And>x. lookup fs' (dst @ x) = lookup fs (dst @ x)"
    using same by simp_all
  have it: "set (items src fs') = set (items src fs)"
    using items_cong[OF _ ks] s[of "[]"] by simp
  from sy same show ?thesis
    by (simp add: synced_def list_all_iff it s d)
qed


lemma apart_siblings: "apart (d @ [s, ''core'']) (d @ [s, ''index.js''])"
  by (simp add: apart_def)

lemma butlast_two: "butlast (d @ [a, b]) = d @ [a]"
  by (simp add: butlast_append)

text \<open>
  The two copies of an update, one after the other, from a template that is apart from
  the target: what the first run leaves, and that a second run changes nothing.
\<close>

lemma update_copies:
  assumes ap: "apart (A @ [s]) (D @ [s])"
    and c1: "copySync deny (A @ [s, ''core'']) (D @ [s, ''core'']) fs0 = (None, fsa)"
    and c2: "copySync deny (A @ [s, ''index.js'']) (D @ [s, ''index.js'']) fsa = (None, fs1)"
  shows "\<exists>fsb fs2. copySync deny (A @ [s, ''core'']) (D @ [s, ''core'']) fs1 = (None, fsb)
            \<and> copySync deny (A @ [s, ''index.js'']) (D @ [s, ''index.js'']) fsb = (None, fs2)
            \<and> (\<forall>q. lookup fs2 q = lookup fs1 q)"
    and "\<forall>r\<in>set (items (A @ [s, ''core'']) fs0).
            lookup fs1 (D @ [s, ''core''] @ r) = lookup fs0 (A @ [s, ''core''] @ r)"
    and "\<forall>r\<in>set (items (A @ [s, ''index.js'']) fs0).
            lookup fs1 (D @ [s, ''index.js''] @ r) = lookup fs0 (A @ [s, ''index.js''] @ r)"
    and "\<forall>q. lookup fs0 q \<noteq> None
            \<and> q \<notin> (\<lambda>r. D @ [s, ''core''] @ r) ` set (items (A @ [s, ''core'']) fs0)
            \<and> q \<notin> (\<lambda>r. D @ [s, ''index.js''] @ r) ` set (items (A @ [s, ''index.js'']) fs0)
          \<longrightarrow> lookup fs1 q = lookup fs0 q"
proof -
  let ?S1 = "A @ [s, ''core'']" and ?D1 = "D @ [s, ''core'']"
  let ?S2 = "A @ [s, ''index.js'']" and ?D2 = "D @ [s, ''index.js'']"
  have ap11: "apart ?S1 ?D1" and ap22: "apart ?S2 ?D2" and ap12: "apart ?S1 ?D2"
    and ap21: "apart ?S2 ?D1"
    using apart_append[OF ap, of "[''core'']" "[''core'']"]
      apart_append[OF ap, of "[''index.js'']" "[''index.js'']"]
      apart_append[OF ap, of "[''core'']" "[''index.js'']"]
      apart_append[OF ap, of "[''index.js'']" "[''core'']"]
    by simp_all
  have apD: "apart ?D1 ?D2" by (rule apart_siblings)
  have bl: "butlast ?D1 = D @ [s]" "butlast ?D2 = D @ [s]" by (simp_all add: butlast_append)
  note k1 = copySync_ok[OF ap11 c1]
  note k2 = copySync_ok[OF ap22 c2]
  have sy1a: "synced deny ?S1 ?D1 fsa" by (rule k1(4))
  then have "\<forall>q\<in>set (prefixes (butlast ?D1)). lookup fsa q = Some Dir"
    unfolding synced_def list_all_iff by blast
  then have dirs: "\<And>x. prefix x (D @ [s]) \<Longrightarrow> lookup fsa x = Some Dir"
    unfolding bl using in_set_prefixes by blast
  \<comment> \<open>the second copy changes the images of its items and nothing else\<close>
  have l2: "\<And>q. lookup fs1 q =
      (if q \<in> (\<lambda>r. ?D2 @ r) ` set (items ?S2 fsa) then lookup fsa (?S2 @ drop (length ?D2) q)
       else lookup fsa q)"
    using k2(1) dirs by (auto simp: bl)
  have img2: "\<And>q. q \<in> (\<lambda>r. ?D2 @ r) ` set (items ?S2 fsa) \<Longrightarrow> prefix ?D2 q"
    by auto
  have same1: "\<forall>q. prefix ?S1 q \<or> prefix ?D1 q \<or> prefix q (butlast ?D1)
      \<longrightarrow> lookup fs1 q = lookup fsa q"
  proof (intro allI impI)
    fix q assume h: "prefix ?S1 q \<or> prefix ?D1 q \<or> prefix q (butlast ?D1)"
    have "q \<notin> (\<lambda>r. ?D2 @ r) ` set (items ?S2 fsa)"
    proof
      assume "q \<in> (\<lambda>r. ?D2 @ r) ` set (items ?S2 fsa)"
      then obtain r where q: "q = ?D2 @ r" by auto
      then have p: "prefix ?D2 q" by simp
      from h show False
      proof (elim disjE)
        assume "prefix ?S1 q" with apart_under[OF ap12 _ p] show False by blast
      next
        assume "prefix ?D1 q" with apart_under[OF apD _ p] show False by blast
      next
        assume "prefix q (butlast ?D1)"
        then have "prefix (?D2 @ r) (butlast ?D2)" using q by (simp only: bl)
        with apart_not_image[OF ap22] show False by blast
      qed
    qed
    with l2[of q] show "lookup fs1 q = lookup fsa q" by simp
  qed
  have keys1: "\<forall>k. prefix ?S1 k \<longrightarrow> (k \<in> keys fs1 \<longleftrightarrow> k \<in> keys fsa)"
  proof (intro allI impI)
    fix k assume p: "prefix ?S1 k"
    show "k \<in> keys fs1 \<longleftrightarrow> k \<in> keys fsa"
    proof
      assume "k \<in> keys fs1"
      with k2(3) have "k \<in> keys fsa \<or> prefix ?D2 k \<or> prefix k (butlast ?D2)" by auto
      with apart_under[OF ap12 p] apart_above[OF ap12 p] show "k \<in> keys fsa" by blast
    next
      assume "k \<in> keys fsa" with k2(2) show "k \<in> keys fs1" by blast
    qed
  qed
  have sy1: "synced deny ?S1 ?D1 fs1"
    using sy1a same1 keys1 by (rule synced_preserved)
  have sy2: "synced deny ?S2 ?D2 fs1" by (rule k2(4))
  from copySync_noop[OF ap11 sy1] obtain fsb where
    n1: "copySync deny ?S1 ?D1 fs1 = (None, fsb)" and e1: "\<forall>q. lookup fsb q = lookup fs1 q"
    and kb: "keys fs1 \<subseteq> keys fsb" "keys fsb \<subseteq> keys fs1 \<union> (\<lambda>r. ?D1 @ r) ` set (items ?S1 fs1)"
    by blast
  have keys2: "\<forall>k. prefix ?S2 k \<longrightarrow> (k \<in> keys fsb \<longleftrightarrow> k \<in> keys fs1)"
  proof (intro allI impI)
    fix k assume p: "prefix ?S2 k"
    show "k \<in> keys fsb \<longleftrightarrow> k \<in> keys fs1"
    proof
      assume "k \<in> keys fsb"
      with kb(2) have "k \<in> keys fs1 \<or> prefix ?D1 k" by auto
      with apart_under[OF ap21 p] show "k \<in> keys fs1" by blast
    next
      assume "k \<in> keys fs1" with kb(1) show "k \<in> keys fsb" by blast
    qed
  qed
  have sy2b: "synced deny ?S2 ?D2 fsb"
    using sy2 _ keys2 by (rule synced_preserved) (simp add: e1)
  from copySync_noop[OF ap22 sy2b] obtain fs2 where
    n2: "copySync deny ?S2 ?D2 fsb = (None, fs2)" and e2: "\<forall>q. lookup fs2 q = lookup fsb q"
    by blast
  from n1 n2 e1 e2
  show "\<exists>fsb fs2. copySync deny ?S1 ?D1 fs1 = (None, fsb)
            \<and> copySync deny ?S2 ?D2 fsb = (None, fs2)
            \<and> (\<forall>q. lookup fs2 q = lookup fs1 q)"
    by auto
  \<comment> \<open>the first copy leaves the source of the second as it was\<close>
  have tree2: "\<And>x. lookup fsa (?S2 @ x) = lookup fs0 (?S2 @ x)"
  proof -
    fix x
    have p: "prefix ?S2 (?S2 @ x)" by simp
    have "?S2 @ x \<notin> (\<lambda>r. ?D1 @ r) ` set (items ?S1 fs0)"
      by (rule apart_not_in_image[OF ap21])
    moreover have "\<not> prefix (?S2 @ x) (butlast ?D1)"
      using apart_above[OF ap21 p] by blast
    ultimately show "lookup fsa (?S2 @ x) = lookup fs0 (?S2 @ x)"
      using k1(1)[of "?S2 @ x"] by simp
  qed
  have keysa: "\<forall>k. prefix ?S2 k \<longrightarrow> (k \<in> keys fsa \<longleftrightarrow> k \<in> keys fs0)"
  proof (intro allI impI)
    fix k assume p: "prefix ?S2 k"
    show "k \<in> keys fsa \<longleftrightarrow> k \<in> keys fs0"
    proof
      assume "k \<in> keys fsa"
      with k1(3) have "k \<in> keys fs0 \<or> prefix ?D1 k \<or> prefix k (butlast ?D1)" by auto
      with apart_under[OF ap21 p] apart_above[OF ap21 p] show "k \<in> keys fs0" by blast
    next
      assume "k \<in> keys fs0" with k1(2) show "k \<in> keys fsa" by blast
    qed
  qed
  have it2: "set (items ?S2 fsa) = set (items ?S2 fs0)"
    using items_cong[OF _ keysa] tree2[of "[]"] by simp
  have l2': "\<And>q. lookup fs1 q =
      (if q \<in> (\<lambda>r. ?D2 @ r) ` set (items ?S2 fs0) then lookup fs0 (?S2 @ drop (length ?D2) q)
       else lookup fsa q)"
    using l2 it2 tree2 by simp
  show "\<forall>r\<in>set (items ?S1 fs0). lookup fs1 (D @ [s, ''core''] @ r) = lookup fs0 (A @ [s, ''core''] @ r)"
  proof
    fix r assume r: "r \<in> set (items ?S1 fs0)"
    have "?D1 @ r \<notin> (\<lambda>r. ?D2 @ r) ` set (items ?S2 fs0)"
      using apart_under[OF apD, of "?D1 @ r"] by auto
    with l2'[of "?D1 @ r"] have "lookup fs1 (?D1 @ r) = lookup fsa (?D1 @ r)" by simp
    also from r k1(1)[of "?D1 @ r"] have "\<dots> = lookup fs0 (?S1 @ r)" by simp
    finally show "lookup fs1 (D @ [s, ''core''] @ r) = lookup fs0 (A @ [s, ''core''] @ r)"
      by simp
  qed
  show "\<forall>r\<in>set (items ?S2 fs0).
      lookup fs1 (D @ [s, ''index.js''] @ r) = lookup fs0 (A @ [s, ''index.js''] @ r)"
  proof
    fix r assume r: "r \<in> set (items ?S2 fs0)"
    with l2'[of "?D2 @ r"] have "lookup fs1 (?D2 @ r) = lookup fs0 (?S2 @ r)" by simp
    then show "lookup fs1 (D @ [s, ''index.js''] @ r) = lookup fs0 (A @ [s, ''index.js''] @ r)"
      by simp
  qed
  show "\<forall>q. lookup fs0 q \<noteq> None
            \<and> q \<notin> (\<lambda>r. D @ [s, ''core''] @ r) ` set (items ?S1 fs0)
            \<and> q \<notin> (\<lambda>r. D @ [s, ''index.js''] @ r) ` set (items ?S2 fs0)
          \<longrightarrow> lookup fs1 q = lookup fs0 q"
  proof (intro allI impI)
    fix q
    assume h: "lookup fs0 q \<noteq> None
            \<and> q \<notin> (\<lambda>r. D @ [s, ''core''] @ r) ` set (items ?S1 fs0)
            \<and> q \<notin> (\<lambda>r. D @ [s, ''index.js''] @ r) ` set (items ?S2 fs0)"
    then have a: "q \<notin> (\<lambda>r. ?D1 @ r) ` set (items ?S1 fs0)"
      and b: "q \<notin> (\<lambda>r. ?D2 @ r) ` set (items ?S2 fs0)"
      by simp_all
    from b l2'[of q] have "lookup fs1 q = lookup fsa q" by simp
    also from a h k1(1)[of q] have "\<dots> = lookup fs0 q" by simp
    finally show "lookup fs1 q = lookup fs0 q" .
  qed
qed


lemma updateCore_ok:
  assumes "updateCore E dir w = (None, w1)"
  shows "\<exists>fsa. copySync (denied E) (appDir E @ [''src'', ''core'']) (dir @ [''src'', ''core''])
             (files w) = (None, fsa)
           \<and> copySync (denied E) (appDir E @ [''src'', ''index.js'']) (dir @ [''src'', ''index.js''])
               fsa = (None, files w1)"
proof -
  from assms obtain v where a: "onFiles (copySync (denied E) (appDir E @ [''src'', ''core''])
      (dir @ [''src'', ''core''])) w = (None, v)"
    and b: "onFiles (copySync (denied E) (appDir E @ [''src'', ''index.js''])
      (dir @ [''src'', ''index.js''])) v = (None, w1)"
    unfolding updateCore_def by (blast dest: andThen_ok)
  from onFiles_ok[OF a] onFiles_ok[OF b] show ?thesis
    by blast
qed

lemma updateCore_run:
  assumes "copySync (denied E) (appDir E @ [''src'', ''core'']) (dir @ [''src'', ''core''])
      (files w) = (None, fsb)"
    and "copySync (denied E) (appDir E @ [''src'', ''index.js'']) (dir @ [''src'', ''index.js''])
      fsb = (None, fs2)"
  shows "updateCore E dir w = (None, w\<lparr>files := fs2\<rparr>)"
  using assms by (simp add: updateCore_def andThen_def onFiles_def)

lemma updateSteps_run:
  "runSteps False (updateSteps E name dir) w =
     updateCore E dir (console_log (''Updating core files in '' @ [SQ] @ name @ [SQ] @ ''...'') w)"
  by (simp add: updateSteps_def split: prod.splits option.splits)

lemma outside_src_not_image:
  assumes "\<not> prefix (dir @ [s]) q"
  shows "q \<notin> (\<lambda>r. dir @ [s, x] @ r) ` R"
proof
  assume "q \<in> (\<lambda>r. dir @ [s, x] @ r) ` R"
  then obtain r where "q = dir @ [s, x] @ r" by (rule imageE)
  then have "q = (dir @ [s]) @ (x # r)" by simp
  then have "prefix (dir @ [s]) q" by (simp only: prefixI)
  with assms show False by simp
qed

text \<open>
  Claim C9. The update plan is one step, and the step copies the template's core
  subtree and its entry-point file into the target directory: after a run every entry
  of the template at or below one of the two sources, at any depth, has its like at the
  same place below the destination, and every entry that was there and is not the image
  of such an entry reads as before, so the manifest, the ignore-file,
  the secrets file and the installed dependencies, which lie outside
  \<^verbatim>\<open>src\<close>, are untouched. The plan is idempotent: on the world a successful run
  leaves, a second run succeeds and leaves a file system that reads the same at every
  path. The template is bundled with the tool: its \<^verbatim>\<open>src\<close> is taken to lie
  apart from the target's \<^verbatim>\<open>src\<close>, neither inside the other.
\<close>

theorem update_plan_is_idempotent:
  "length (updateSteps E name dir) = 1
   \<and> (apart (appDir E @ [''src'']) (dir @ [''src''])
        \<and> runSteps False (updateSteps E name dir) w = (None, w1)
      \<longrightarrow> (\<exists>w2. runSteps False (updateSteps E name dir) w1 = (None, w2)
                \<and> (\<forall>q. lookup (files w2) q = lookup (files w1) q)
                \<and> cwd w2 = cwd w1 \<and> execs w2 = execs w1)
          \<and> (\<forall>r\<in>set (items (appDir E @ [''src'', ''core'']) (files w)).
                lookup (files w1) (dir @ [''src'', ''core''] @ r)
                  = lookup (files w) (appDir E @ [''src'', ''core''] @ r))
          \<and> (\<forall>r\<in>set (items (appDir E @ [''src'', ''index.js'']) (files w)).
                lookup (files w1) (dir @ [''src'', ''index.js''] @ r)
                  = lookup (files w) (appDir E @ [''src'', ''index.js''] @ r))
          \<and> (\<forall>r. lookup (files w) (appDir E @ [''src'', ''core''] @ r) \<noteq> None
                \<and> (r = [] \<or> lookup (files w) (appDir E @ [''src'', ''core'']) = Some Dir)
              \<longrightarrow> lookup (files w1) (dir @ [''src'', ''core''] @ r)
                    = lookup (files w) (appDir E @ [''src'', ''core''] @ r))
          \<and> (\<forall>r. lookup (files w) (appDir E @ [''src'', ''index.js''] @ r) \<noteq> None
                \<and> (r = [] \<or> lookup (files w) (appDir E @ [''src'', ''index.js'']) = Some Dir)
              \<longrightarrow> lookup (files w1) (dir @ [''src'', ''index.js''] @ r)
                    = lookup (files w) (appDir E @ [''src'', ''index.js''] @ r))
          \<and> (\<forall>q. lookup (files w) q \<noteq> None
                \<and> q \<notin> (\<lambda>r. dir @ [''src'', ''core''] @ r)
                        ` set (items (appDir E @ [''src'', ''core'']) (files w))
                \<and> q \<notin> (\<lambda>r. dir @ [''src'', ''index.js''] @ r)
                        ` set (items (appDir E @ [''src'', ''index.js'']) (files w))
              \<longrightarrow> lookup (files w1) q = lookup (files w) q)
          \<and> (\<forall>q. lookup (files w) q \<noteq> None \<and> \<not> prefix (dir @ [''src'']) q
              \<longrightarrow> lookup (files w1) q = lookup (files w) q)
          \<and> cwd w1 = cwd w \<and> execs w1 = execs w)"
proof (intro conjI impI)
  show "length (updateSteps E name dir) = 1"
    by (simp add: updateSteps_def)
next
  assume h: "apart (appDir E @ [''src'']) (dir @ [''src''])
        \<and> runSteps False (updateSteps E name dir) w = (None, w1)"
  let ?msg = "''Updating core files in '' @ [SQ] @ name @ [SQ] @ ''...''"
  let ?v = "console_log ?msg w"
  from h have ap: "apart (appDir E @ [''src'']) (dir @ [''src''])"
    and run: "updateCore E dir ?v = (None, w1)"
    by (simp_all add: updateSteps_run)
  from updateCore_ok[OF run] obtain fsa where
    c1: "copySync (denied E) (appDir E @ [''src'', ''core'']) (dir @ [''src'', ''core''])
          (files w) = (None, fsa)"
    and c2: "copySync (denied E) (appDir E @ [''src'', ''index.js'']) (dir @ [''src'', ''index.js''])
          fsa = (None, files w1)"
    by (auto simp: console_log_def)
  note fo = filesOnlyD[OF filesOnly_updateCore run]
  note u = update_copies[OF ap c1 c2]
  from u(1) obtain fsb fs2 where
    d1: "copySync (denied E) (appDir E @ [''src'', ''core'']) (dir @ [''src'', ''core''])
          (files w1) = (None, fsb)"
    and d2: "copySync (denied E) (appDir E @ [''src'', ''index.js'']) (dir @ [''src'', ''index.js''])
          fsb = (None, fs2)"
    and same: "\<forall>q. lookup fs2 q = lookup (files w1) q"
    by blast
  let ?v1 = "console_log ?msg w1"
  from d1 d2 have "updateCore E dir ?v1 = (None, ?v1\<lparr>files := fs2\<rparr>)"
    by (intro updateCore_run) (simp_all add: console_log_def)
  then have "runSteps False (updateSteps E name dir) w1 = (None, ?v1\<lparr>files := fs2\<rparr>)"
    by (simp add: updateSteps_run)
  with same show "\<exists>w2. runSteps False (updateSteps E name dir) w1 = (None, w2)
                \<and> (\<forall>q. lookup (files w2) q = lookup (files w1) q)
                \<and> cwd w2 = cwd w1 \<and> execs w2 = execs w1"
    by (intro exI[of _ "?v1\<lparr>files := fs2\<rparr>"]) (simp add: console_log_def)
  show "\<forall>r\<in>set (items (appDir E @ [''src'', ''core'']) (files w)).
                lookup (files w1) (dir @ [''src'', ''core''] @ r)
                  = lookup (files w) (appDir E @ [''src'', ''core''] @ r)"
    by (rule u(2))
  show "\<forall>r\<in>set (items (appDir E @ [''src'', ''index.js'']) (files w)).
                lookup (files w1) (dir @ [''src'', ''index.js''] @ r)
                  = lookup (files w) (appDir E @ [''src'', ''index.js''] @ r)"
    by (rule u(3))
  show "\<forall>r. lookup (files w) (appDir E @ [''src'', ''core''] @ r) \<noteq> None
                \<and> (r = [] \<or> lookup (files w) (appDir E @ [''src'', ''core'']) = Some Dir)
              \<longrightarrow> lookup (files w1) (dir @ [''src'', ''core''] @ r)
                    = lookup (files w) (appDir E @ [''src'', ''core''] @ r)"
  proof (intro allI impI)
    fix r
    assume "lookup (files w) (appDir E @ [''src'', ''core''] @ r) \<noteq> None
        \<and> (r = [] \<or> lookup (files w) (appDir E @ [''src'', ''core'']) = Some Dir)"
    then have "r \<in> set (items (appDir E @ [''src'', ''core'']) (files w))"
      by (intro entry_in_items) simp_all
    with u(2) show "lookup (files w1) (dir @ [''src'', ''core''] @ r)
                    = lookup (files w) (appDir E @ [''src'', ''core''] @ r)"
      by (rule bspec)
  qed
  show "\<forall>r. lookup (files w) (appDir E @ [''src'', ''index.js''] @ r) \<noteq> None
                \<and> (r = [] \<or> lookup (files w) (appDir E @ [''src'', ''index.js'']) = Some Dir)
              \<longrightarrow> lookup (files w1) (dir @ [''src'', ''index.js''] @ r)
                    = lookup (files w) (appDir E @ [''src'', ''index.js''] @ r)"
  proof (intro allI impI)
    fix r
    assume "lookup (files w) (appDir E @ [''src'', ''index.js''] @ r) \<noteq> None
        \<and> (r = [] \<or> lookup (files w) (appDir E @ [''src'', ''index.js'']) = Some Dir)"
    then have "r \<in> set (items (appDir E @ [''src'', ''index.js'']) (files w))"
      by (intro entry_in_items) simp_all
    with u(3) show "lookup (files w1) (dir @ [''src'', ''index.js''] @ r)
                    = lookup (files w) (appDir E @ [''src'', ''index.js''] @ r)"
      by (rule bspec)
  qed
  show fr: "\<forall>q. lookup (files w) q \<noteq> None
                \<and> q \<notin> (\<lambda>r. dir @ [''src'', ''core''] @ r)
                        ` set (items (appDir E @ [''src'', ''core'']) (files w))
                \<and> q \<notin> (\<lambda>r. dir @ [''src'', ''index.js''] @ r)
                        ` set (items (appDir E @ [''src'', ''index.js'']) (files w))
              \<longrightarrow> lookup (files w1) q = lookup (files w) q"
    by (rule u(4))
  show "\<forall>q. lookup (files w) q \<noteq> None \<and> \<not> prefix (dir @ [''src'']) q
              \<longrightarrow> lookup (files w1) q = lookup (files w) q"
  proof (intro allI impI)
    fix q assume a: "lookup (files w) q \<noteq> None \<and> \<not> prefix (dir @ [''src'']) q"
    then have n: "\<not> prefix (dir @ [''src'']) q" by simp
    have "q \<notin> (\<lambda>r. dir @ [''src'', ''core''] @ r)
                        ` set (items (appDir E @ [''src'', ''core'']) (files w))"
      and "q \<notin> (\<lambda>r. dir @ [''src'', ''index.js''] @ r)
                        ` set (items (appDir E @ [''src'', ''index.js'']) (files w))"
      by (rule outside_src_not_image[OF n])+
    with a fr show "lookup (files w1) q = lookup (files w) q" by simp
  qed
  from fo show "cwd w1 = cwd w" "execs w1 = execs w"
    by (simp_all add: console_log_def)
qed

theorem update_plan_is_idempotent_witness:
  "(\<exists>w2. runSteps False (updateSteps demoEnv ''my-bot'' [''home'', ''my-bot''])
            (snd (runSteps False (updateSteps demoEnv ''my-bot'' [''home'', ''my-bot'']) updatedWorld))
          = (None, w2)
        \<and> (\<forall>q. lookup (files w2) q =
              lookup (files (snd (runSteps False
                (updateSteps demoEnv ''my-bot'' [''home'', ''my-bot'']) updatedWorld))) q))
   \<and> lookup (files (snd (runSteps False
          (updateSteps demoEnv ''my-bot'' [''home'', ''my-bot'']) updatedWorld)))
        [''home'', ''my-bot'', ''src'', ''core''] = Some Dir
   \<and> lookup (files (snd (runSteps False
          (updateSteps demoEnv ''my-bot'' [''home'', ''my-bot'']) updatedWorld)))
        [''home'', ''my-bot'', ''src'', ''core'', ''bot.js''] = Some (File ''core'')
   \<and> lookup (files (snd (runSteps False
          (updateSteps demoEnv ''my-bot'' [''home'', ''my-bot'']) updatedWorld)))
        [''home'', ''my-bot'', ''src'', ''core'', ''util''] = Some Dir
   \<and> lookup (files (snd (runSteps False
          (updateSteps demoEnv ''my-bot'' [''home'', ''my-bot'']) updatedWorld)))
        [''home'', ''my-bot'', ''src'', ''core'', ''util'', ''log.js''] = Some (File ''log'')
   \<and> lookup (files (snd (runSteps False
          (updateSteps demoEnv ''my-bot'' [''home'', ''my-bot'']) updatedWorld)))
        [''home'', ''my-bot'', ''src'', ''index.js''] = Some (File ''index'')
   \<and> lookup (files (snd (runSteps False
          (updateSteps demoEnv ''my-bot'' [''home'', ''my-bot'']) updatedWorld)))
        [''home'', ''my-bot'', ''.env''] = Some (File ''DISCORD_BOT_TOKEN=abc'')
   \<and> lookup (files (snd (runSteps False
          (updateSteps demoEnv ''my-bot'' [''home'', ''my-bot'']) updatedWorld)))
        [''home'', ''my-bot'', ''package.json''] = None"
proof -
  let ?dir = "[''home'', ''my-bot'']"
  let ?us = "updateSteps demoEnv ''my-bot'' ?dir"
  let ?w1 = "snd (runSteps False ?us updatedWorld)"
  let ?S1 = "appDir demoEnv @ [''src'', ''core'']"
  let ?S2 = "appDir demoEnv @ [''src'', ''index.js'']"
  have ap: "apart (appDir demoEnv @ [''src'']) (?dir @ [''src''])"
    by (simp add: apart_def demoEnv_def)
  have "fst (runSteps False ?us updatedWorld) = None"
    by code_simp
  then have run: "runSteps False ?us updatedWorld = (None, ?w1)"
    by (simp add: prod_eq_iff)
  have ad: "appDir demoEnv = [''tool'', ''app'']"
    by (simp add: demoEnv_def)
  have s0: "lookup (files updatedWorld) (?S1 @ []) = Some Dir"
    "lookup (files updatedWorld) ?S1 = Some Dir"
    and s1: "lookup (files updatedWorld) (?S1 @ [''bot.js'']) = Some (File ''core'')"
    and s2: "lookup (files updatedWorld) (?S1 @ [''util'']) = Some Dir"
    and s3: "lookup (files updatedWorld) (?S1 @ [''util'', ''log.js'']) = Some (File ''log'')"
    and s4: "lookup (files updatedWorld) (?S2 @ []) = Some (File ''index'')"
    unfolding ad by (simp_all add: updatedWorld_def demoWorld_def lookup_def)
  have e: "lookup (files updatedWorld) [''home'', ''my-bot'', ''.env'']
      = Some (File ''DISCORD_BOT_TOKEN=abc'')"
    "\<not> prefix (?dir @ [''src'']) [''home'', ''my-bot'', ''.env'']"
    by (simp_all add: updatedWorld_def lookup_def)
  note t = update_plan_is_idempotent[where E=demoEnv and name="''my-bot''" and dir="?dir"
      and w=updatedWorld and ?w1.0="?w1"]
  from t ap run have again: "\<exists>w2. runSteps False ?us ?w1 = (None, w2)
        \<and> (\<forall>q. lookup (files w2) q = lookup (files ?w1) q)
        \<and> cwd w2 = cwd ?w1 \<and> execs w2 = execs ?w1"
    by blast
  from t ap run have a1: "\<forall>r. lookup (files updatedWorld) (appDir demoEnv @ [''src'', ''core''] @ r) \<noteq> None
        \<and> (r = [] \<or> lookup (files updatedWorld) ?S1 = Some Dir)
      \<longrightarrow> lookup (files ?w1) (?dir @ [''src'', ''core''] @ r)
        = lookup (files updatedWorld) (appDir demoEnv @ [''src'', ''core''] @ r)"
    by blast
  from t ap run have a2: "\<forall>r. lookup (files updatedWorld) (appDir demoEnv @ [''src'', ''index.js''] @ r) \<noteq> None
        \<and> (r = [] \<or> lookup (files updatedWorld) ?S2 = Some Dir)
      \<longrightarrow> lookup (files ?w1) (?dir @ [''src'', ''index.js''] @ r)
        = lookup (files updatedWorld) (appDir demoEnv @ [''src'', ''index.js''] @ r)"
    by blast
  from t ap run have fr: "\<forall>q. lookup (files updatedWorld) q \<noteq> None \<and> \<not> prefix (?dir @ [''src'']) q
      \<longrightarrow> lookup (files ?w1) q = lookup (files updatedWorld) q"
    by blast
  from a1[rule_format, of "[]"] s0
  have r0: "lookup (files ?w1) (?dir @ [''src'', ''core''] @ []) = Some Dir"
    by simp
  from a1[rule_format, of "[''bot.js'']"] s0 s1
  have r1: "lookup (files ?w1) (?dir @ [''src'', ''core''] @ [''bot.js'']) = Some (File ''core'')"
    by simp
  from a1[rule_format, of "[''util'']"] s0 s2
  have r2: "lookup (files ?w1) (?dir @ [''src'', ''core''] @ [''util'']) = Some Dir"
    by simp
  from a1[rule_format, of "[''util'', ''log.js'']"] s0 s3
  have r3: "lookup (files ?w1) (?dir @ [''src'', ''core''] @ [''util'', ''log.js''])
      = Some (File ''log'')"
    by simp
  from a2[rule_format, of "[]"] s4
  have r4: "lookup (files ?w1) (?dir @ [''src'', ''index.js''] @ []) = Some (File ''index'')"
    by simp
  from fr e have r5: "lookup (files ?w1) [''home'', ''my-bot'', ''.env'']
      = Some (File ''DISCORD_BOT_TOKEN=abc'')"
    by simp
  have r6: "lookup (files ?w1) [''home'', ''my-bot'', ''package.json''] = None"
    by code_simp
  from again have "\<exists>w2. runSteps False ?us ?w1 = (None, w2)
        \<and> (\<forall>q. lookup (files w2) q = lookup (files ?w1) q)"
    by blast
  with r0 r1 r2 r3 r4 r5 r6 show ?thesis by simp
qed

end
